theory Spec2Isabelle
  imports Main
begin

section \<open>Time and calendar\<close>

text \<open>
  The program keeps every instant as an ISO string or a dayjs object; both stand for a
  number of milliseconds since the epoch, which is what \<open>timestamp\<close> is.  Local
  wall-clock fields are read through one fixed offset \<open>tz\<close> (milliseconds east of
  UTC), so daylight-saving changes are outside the model.  A \<open>date\<close> is the local
  calendar day counted from 1970-01-01 and stands for the string that
  \<^verbatim>\<open>format('YYYY-MM-DD')\<close> prints.
\<close>

type_synonym timestamp = int
type_synonym date = int

definition MS_PER_MINUTE :: int where "MS_PER_MINUTE = 60000"
definition MS_PER_HOUR :: int where "MS_PER_HOUR = 3600000"
definition MS_PER_DAY :: int where "MS_PER_DAY = 86400000"

text \<open>\<^verbatim>\<open>dayjs(t).format('YYYY-MM-DD')\<close>, \<^verbatim>\<open>.hour()\<close>, \<^verbatim>\<open>.minute()\<close>.\<close>

definition dateOf :: "int \<Rightarrow> timestamp \<Rightarrow> date" where
  "dateOf tz t = (t + tz) div MS_PER_DAY"

definition hourOf :: "int \<Rightarrow> timestamp \<Rightarrow> int" where
  "hourOf tz t = ((t + tz) mod MS_PER_DAY) div MS_PER_HOUR"

definition minuteOf :: "int \<Rightarrow> timestamp \<Rightarrow> int" where
  "minuteOf tz t = ((t + tz) mod MS_PER_HOUR) div MS_PER_MINUTE"

text \<open>\<^verbatim>\<open>.day()\<close>: 0 is Sunday; 1970-01-01 was a Thursday.\<close>

definition dayOfWeek :: "date \<Rightarrow> nat" where
  "dayOfWeek d = nat ((d + 4) mod 7)"

text \<open>\<^verbatim>\<open>dayjs(dateStr).hour(h).minute(m).second(0)\<close> for a \<^verbatim>\<open>YYYY-MM-DD\<close> string.\<close>

definition atLocal :: "int \<Rightarrow> date \<Rightarrow> int \<Rightarrow> int \<Rightarrow> timestamp" where
  "atLocal tz d h m = d * MS_PER_DAY + h * MS_PER_HOUR + m * MS_PER_MINUTE - tz"

section \<open>Calendar model\<close>

record businessHours =
  openAt :: "(int \<times> int) option"
  closeAt :: "(int \<times> int) option"

text \<open>The table \<^verbatim>\<open>BUSINESS_HOURS\<close>; a key outside 0..6 is \<^verbatim>\<open>undefined\<close>.\<close>

definition BUSINESS_HOURS :: "nat \<Rightarrow> businessHours option" where
  "BUSINESS_HOURS d =
     (if d = 0 then Some \<lparr>openAt = None, closeAt = None\<rparr>
      else if d \<le> 6 then Some \<lparr>openAt = Some (10, 0), closeAt = Some (21, 0)\<rparr>
      else None)"

definition TIME_SLOT_DURATION :: int where "TIME_SLOT_DURATION = 60"

text \<open>\<^verbatim>\<open>BUSINESS_HOURS[dayOfWeek] && BUSINESS_HOURS[dayOfWeek].open\<close>\<close>

definition hasBusinessHours :: "nat \<Rightarrow> bool" where
  "hasBusinessHours d = (case BUSINESS_HOURS d of None \<Rightarrow> False | Some h \<Rightarrow> openAt h \<noteq> None)"

section \<open>Appointments\<close>

text \<open>
  The three flags are properties the upload handler adds to some objects; an absent
  property is falsy, which is \<open>False\<close> here.
\<close>

record appointment =
  name :: string
  phone :: string
  appointmentTime :: timestamp
  isFromUpload :: bool
  isRescheduled :: bool
  isExisting :: bool

section \<open>Availability engine\<close>

text \<open>\<^verbatim>\<open>getAvailableDates\<close>: the loop \<^verbatim>\<open>for (let i = 1; i <= numDays; i++)\<close>.\<close>

function datesLoop :: "date \<Rightarrow> int \<Rightarrow> int \<Rightarrow> date list \<Rightarrow> date list" where
  "datesLoop today numDays i availableDates =
     (if i \<le> numDays then
        datesLoop today numDays (i + 1)
          (if hasBusinessHours (dayOfWeek (today + i)) then availableDates @ [today + i]
           else availableDates)
      else availableDates)"
  by pat_completeness auto
termination
  by (relation "measure (\<lambda>(today, numDays, i, acc). nat (numDays + 1 - i))") auto

definition getAvailableDates :: "int \<Rightarrow> timestamp \<Rightarrow> int \<Rightarrow> date list" where
  "getAvailableDates tz now numDays = datesLoop (dateOf tz now) numDays 1 []"

text \<open>\<^verbatim>\<open>isTimeSlotAvailable\<close>, over the appointment list it reads from the global.\<close>

fun isTimeSlotAvailable :: "int \<Rightarrow> appointment list \<Rightarrow> timestamp \<Rightarrow> string \<Rightarrow> bool" where
  "isTimeSlotAvailable tz [] proposedTime userPhone = True"
| "isTimeSlotAvailable tz (a # rest) proposedTime userPhone =
     (if phone a = userPhone then isTimeSlotAvailable tz rest proposedTime userPhone
      else if dateOf tz proposedTime = dateOf tz (appointmentTime a)
            \<and> \<bar>proposedTime - appointmentTime a\<bar> < MS_PER_HOUR then False
      else isTimeSlotAvailable tz rest proposedTime userPhone)"

text \<open>\<^verbatim>\<open>getAvailableTimeSlots\<close>: the loop \<^verbatim>\<open>while (currentSlot.isBefore(endTime))\<close>.\<close>

function slotLoop ::
  "int \<Rightarrow> appointment list \<Rightarrow> string \<Rightarrow> timestamp \<Rightarrow> timestamp \<Rightarrow> timestamp list \<Rightarrow> timestamp list"
where
  "slotLoop tz appts userPhone currentSlot endTime availableSlots =
     (if currentSlot < endTime then
        slotLoop tz appts userPhone (currentSlot + TIME_SLOT_DURATION * MS_PER_MINUTE) endTime
          (if isTimeSlotAvailable tz appts currentSlot userPhone
           then availableSlots @ [currentSlot] else availableSlots)
      else availableSlots)"
  by pat_completeness auto
termination
  by (relation "measure (\<lambda>(tz, appts, ph, cur, end, acc). nat (end - cur))")
     (auto simp: TIME_SLOT_DURATION_def MS_PER_MINUTE_def)

text \<open>
  A day whose \<^verbatim>\<open>open\<close> is set and whose \<^verbatim>\<open>close\<close> is null would make
  \<^verbatim>\<open>.split\<close> throw; the table has no such day, and the model returns no slot there.
\<close>

definition getAvailableTimeSlots ::
  "int \<Rightarrow> appointment list \<Rightarrow> date \<Rightarrow> string \<Rightarrow> timestamp list"
where
  "getAvailableTimeSlots tz appts dateStr userPhone =
     (case BUSINESS_HOURS (dayOfWeek dateStr) of
        None \<Rightarrow> []
      | Some h \<Rightarrow>
          (case (openAt h, closeAt h) of
             (Some (openHour, openMinute), Some (closeHour, closeMinute)) \<Rightarrow>
               slotLoop tz appts userPhone
                 (atLocal tz dateStr openHour openMinute)
                 (atLocal tz dateStr closeHour closeMinute) []
           | _ \<Rightarrow> []))"

text \<open>One slot in milliseconds, the step of the loop above.\<close>

definition SLOT_MS :: int where
  "SLOT_MS = TIME_SLOT_DURATION * MS_PER_MINUTE"

section \<open>Strings\<close>

text \<open>
  A JavaScript string is a sequence of UTF-16 code units; the model has the code units
  below 256.  \<open>isSpace\<close> is what \<^verbatim>\<open>\s\<close>, \<^verbatim>\<open>trim\<close> and \<^verbatim>\<open>parseInt\<close> skip there,
  \<open>isDigit\<close> is \<^verbatim>\<open>\d\<close>.
\<close>

definition isSpace :: "char \<Rightarrow> bool" where
  "isSpace c = (c \<in> set [CHR 0x09, CHR 0x0A, CHR 0x0B, CHR 0x0C, CHR 0x0D, CHR 0x20, CHR 0xA0])"

definition isDigit :: "char \<Rightarrow> bool" where
  "isDigit c = (48 \<le> (of_char c :: nat) \<and> (of_char c :: nat) \<le> 57)"

definition toLowerChar :: "char \<Rightarrow> char" where
  "toLowerChar c =
     (let n = (of_char c :: nat)
      in if (65 \<le> n \<and> n \<le> 90) \<or> (192 \<le> n \<and> n \<le> 222 \<and> n \<noteq> 215)
         then char_of (n + 32) else c)"

definition toLowerCase :: "string \<Rightarrow> string" where
  "toLowerCase s = map toLowerChar s"

definition trim :: "string \<Rightarrow> string" where
  "trim s = rev (dropWhile isSpace (rev (dropWhile isSpace s)))"

text \<open>\<^verbatim>\<open>replace(/\s+/g, ' ')\<close>\<close>

function collapseSpaces :: "string \<Rightarrow> string" where
  "collapseSpaces [] = []"
| "collapseSpaces (c # cs) =
     (if isSpace c then CHR '' '' # collapseSpaces (dropWhile isSpace cs)
      else c # collapseSpaces cs)"
  by pat_completeness auto
termination
  by (relation "measure length") (auto simp: length_dropWhile_le less_Suc_eq_le)

text \<open>\<^verbatim>\<open>s.includes(sub)\<close>\<close>

fun str_includes :: "string \<Rightarrow> string \<Rightarrow> bool" where
  "str_includes [] sub = (sub = [])"
| "str_includes (c # cs) sub = (take (length sub) (c # cs) = sub \<or> str_includes cs sub)"

text \<open>The value of a character as a digit of the given radix, when it is one.\<close>

definition digitOf :: "nat \<Rightarrow> char \<Rightarrow> nat option" where
  "digitOf radix c =
     (let n = (of_char c :: nat);
          v = (if 48 \<le> n \<and> n \<le> 57 then n - 48
               else if 97 \<le> n \<and> n \<le> 122 then n - 87
               else if 65 \<le> n \<and> n \<le> 90 then n - 55
               else radix)
      in if v < radix then Some v else None)"

fun digitsValue :: "nat \<Rightarrow> string \<Rightarrow> int \<Rightarrow> int" where
  "digitsValue radix [] acc = acc"
| "digitsValue radix (c # cs) acc =
     (case digitOf radix c of
        None \<Rightarrow> acc
      | Some v \<Rightarrow> digitsValue radix cs (acc * int radix + int v))"

text \<open>
  \<^verbatim>\<open>parseInt(s)\<close> with no radix, as the language defines it: leading white space and one
  sign are skipped, a \<^verbatim>\<open>0x\<close> prefix selects radix 16, and the longest prefix of digits is
  read; \<open>None\<close> is \<^verbatim>\<open>NaN\<close>.  The value is an unbounded integer here and a double in the
  program; they differ only beyond \<open>2^53\<close>.
\<close>

definition jsParseInt :: "string \<Rightarrow> int option" where
  "jsParseInt inputString =
     (let s = dropWhile isSpace inputString;
          sign = (if take 1 s = ''-'' then - 1 else 1 :: int);
          s1 = (if take 1 s = ''-'' \<or> take 1 s = ''+'' then drop 1 s else s);
          hex = (take 2 s1 = ''0x'' \<or> take 2 s1 = ''0X'');
          radix = (if hex then 16 else 10);
          s2 = (if hex then drop 2 s1 else s1)
      in if takeWhile (\<lambda>c. digitOf radix c \<noteq> None) s2 = [] then None
         else Some (sign * digitsValue radix s2 0))"

section \<open>Time expression parser\<close>

datatype period = AM | PM

record parsedTime =
  matchedHour :: int
  matchedMinute :: int
  matchedPeriod :: "period option"
  is24HourFormat :: bool

text \<open>
  A pattern returns the groups \<^verbatim>\<open>match[1]\<close> and \<^verbatim>\<open>match[2]\<close>; \<open>None\<close> for the second is
  a group that took no part in the match.  All patterns are anchored at both ends and
  begin with \<^verbatim>\<open>(\d{1,2})\<close>, which is greedy: \<open>withHour\<close> tries two digits, then one.
\<close>

type_synonym groups = "string \<times> string option"

definition hourGroup :: "nat \<Rightarrow> string \<Rightarrow> (string \<times> string) option" where
  "hourGroup k s =
     (if k \<le> length s \<and> (\<forall>c \<in> set (take k s). isDigit c) then Some (take k s, drop k s)
      else None)"

definition withHourAt :: "nat \<Rightarrow> (string \<Rightarrow> string option option) \<Rightarrow> string \<Rightarrow> groups option" where
  "withHourAt k rest s =
     (case hourGroup k s of
        None \<Rightarrow> None
      | Some (h, r) \<Rightarrow> (case rest r of None \<Rightarrow> None | Some m \<Rightarrow> Some (h, m)))"

definition withHour :: "(string \<Rightarrow> string option option) \<Rightarrow> string \<Rightarrow> groups option" where
  "withHour rest s =
     (case withHourAt 2 rest s of Some g \<Rightarrow> Some g | None \<Rightarrow> withHourAt 1 rest s)"

text \<open>\<^verbatim>\<open>\s*(?:pm|am)$\<close> under the flag \<^verbatim>\<open>i\<close>\<close>

definition meridiemTail :: "string \<Rightarrow> bool" where
  "meridiemTail s =
     (let r = map toLowerChar (dropWhile isSpace s) in r = ''pm'' \<or> r = ''am'')"

definition twoDigits :: "string \<Rightarrow> bool" where
  "twoDigits s = (2 \<le> length s \<and> (\<forall>c \<in> set (take 2 s). isDigit c))"

text \<open>\<^verbatim>\<open>/^(\d{1,2})\s*(?:pm|am)$/i\<close>\<close>

definition pat_hour_meridiem :: "string \<Rightarrow> groups option" where
  "pat_hour_meridiem = withHour (\<lambda>r. if meridiemTail r then Some None else None)"

text \<open>\<^verbatim>\<open>/^(\d{1,2}):(\d{2})\s*(?:pm|am)$/i\<close>\<close>

definition pat_hour_minute_meridiem :: "string \<Rightarrow> groups option" where
  "pat_hour_minute_meridiem =
     withHour (\<lambda>r. if take 1 r = '':'' \<and> twoDigits (drop 1 r) \<and> meridiemTail (drop 3 r)
                    then Some (Some (take 2 (drop 1 r))) else None)"

text \<open>\<^verbatim>\<open>/^(\d{1,2}):\s*(?:pm|am)$/i\<close>\<close>

definition pat_hour_colon_meridiem :: "string \<Rightarrow> groups option" where
  "pat_hour_colon_meridiem =
     withHour (\<lambda>r. if take 1 r = '':'' \<and> meridiemTail (drop 1 r) then Some None else None)"

text \<open>
  \<^verbatim>\<open>/^(\d{1,2}):?(\d{2})?\s*(?:pm|am)$/i\<close>: both optional parts are greedy, so the colon
  is tried taken before skipped, and the minutes taken before skipped.
\<close>

definition optionalMinutes :: "string \<Rightarrow> string option option" where
  "optionalMinutes r =
     (if twoDigits r \<and> meridiemTail (drop 2 r) then Some (Some (take 2 r))
      else if meridiemTail r then Some None
      else None)"

definition pat_hour_optional_meridiem :: "string \<Rightarrow> groups option" where
  "pat_hour_optional_meridiem =
     withHour (\<lambda>r. if take 1 r = '':''
                    then (case optionalMinutes (drop 1 r) of
                            Some m \<Rightarrow> Some m
                          | None \<Rightarrow> optionalMinutes r)
                    else optionalMinutes r)"

text \<open>\<^verbatim>\<open>/^(\d{1,2})$/\<close>, \<^verbatim>\<open>/^(\d{1,2}):$/\<close>, \<^verbatim>\<open>/^(\d{1,2}):(\d{2})$/\<close>\<close>

definition pat_hour :: "string \<Rightarrow> groups option" where
  "pat_hour = withHour (\<lambda>r. if r = [] then Some None else None)"

definition pat_hour_colon :: "string \<Rightarrow> groups option" where
  "pat_hour_colon = withHour (\<lambda>r. if r = '':'' then Some None else None)"

definition pat_hour_minute :: "string \<Rightarrow> groups option" where
  "pat_hour_minute =
     withHour (\<lambda>r. if take 1 r = '':'' \<and> twoDigits (drop 1 r) \<and> length r = 3
                    then Some (Some (drop 1 r)) else None)"

text \<open>\<^verbatim>\<open>/^(\d{1,2})[^\d]*$/\<close>\<close>

definition pat_hour_then_other :: "string \<Rightarrow> groups option" where
  "pat_hour_then_other = withHour (\<lambda>r. if \<forall>c \<in> set r. \<not> isDigit c then Some None else None)"

definition timeFormats :: "(string \<Rightarrow> groups option) list" where
  "timeFormats =
     [pat_hour_meridiem, pat_hour_minute_meridiem, pat_hour_colon_meridiem, pat_hour_meridiem,
      pat_hour_optional_meridiem, pat_hour, pat_hour_colon, pat_hour_minute]"

definition alternativePatterns :: "(string \<Rightarrow> groups option) list" where
  "alternativePatterns = [pat_hour_minute, pat_hour_then_other]"

text \<open>\<^verbatim>\<open>for (const pattern of ...) { const match = ...; if (match) { ...; break; } }\<close>\<close>

fun firstMatch :: "(string \<Rightarrow> groups option) list \<Rightarrow> string \<Rightarrow> groups option" where
  "firstMatch [] inputTime = None"
| "firstMatch (pattern # rest) inputTime =
     (case pattern inputTime of Some g \<Rightarrow> Some g | None \<Rightarrow> firstMatch rest inputTime)"

text \<open>
  \<^verbatim>\<open>parseInt\<close> of a captured group: the group holds one or two decimal digits, so the
  value is read in radix 10.
\<close>

definition groupValue :: "string \<Rightarrow> int" where
  "groupValue g = digitsValue 10 g 0"

definition minuteOfGroups :: "groups \<Rightarrow> int" where
  "minuteOfGroups g = (case snd g of None \<Rightarrow> 0 | Some m \<Rightarrow> if m = [] then 0 else groupValue m)"

text \<open>Lines 336 to 427 of \<^verbatim>\<open>handleTimeSelection\<close>: normalising and parsing the text.\<close>

definition normalizeTime :: "string \<Rightarrow> string" where
  "normalizeTime messageContent = collapseSpaces (toLowerCase (trim messageContent))"

definition parseTime :: "string \<Rightarrow> parsedTime option" where
  "parseTime inputTime =
     (case firstMatch timeFormats inputTime of
        Some g \<Rightarrow>
          (let h = groupValue (fst g);
               p = (if str_includes inputTime ''pm'' then Some PM
                    else if str_includes inputTime ''am'' then Some AM else None)
           in Some \<lparr>matchedHour = h, matchedMinute = minuteOfGroups g, matchedPeriod = p,
                     is24HourFormat = (p = None \<and> h > 12)\<rparr>)
      | None \<Rightarrow>
          (case firstMatch alternativePatterns inputTime of
             Some g \<Rightarrow>
               (let h = groupValue (fst g)
                in Some \<lparr>matchedHour = h, matchedMinute = minuteOfGroups g, matchedPeriod = None,
                          is24HourFormat = (h > 12)\<rparr>)
           | None \<Rightarrow> None))"

text \<open>The inner loop over the offered slots, left at the first slot that matches.\<close>

fun findSlot :: "int \<Rightarrow> timestamp list \<Rightarrow> int \<Rightarrow> int \<Rightarrow> timestamp option" where
  "findSlot tz [] h m = None"
| "findSlot tz (timeSlot # rest) h m =
     (if hourOf tz timeSlot = h \<and> minuteOf tz timeSlot = m then Some timeSlot
      else findSlot tz rest h m)"

definition candidateHours :: "int \<Rightarrow> int list" where
  "candidateHours h =
     (if 1 \<le> h \<and> h \<le> 11 then [h, h + 12]
      else if h = 12 then [12, 0]
      else if h > 12 then [h]
      else [])"

text \<open>\<^verbatim>\<open>for (const candidateHour of candidateHours) { for (const timeSlot of ...) ... }\<close>\<close>

fun candidateLoop :: "int \<Rightarrow> timestamp list \<Rightarrow> int list \<Rightarrow> int \<Rightarrow> timestamp option" where
  "candidateLoop tz slots [] m = None"
| "candidateLoop tz slots (candidateHour # rest) m =
     (case findSlot tz slots candidateHour m of
        Some t \<Rightarrow> Some t
      | None \<Rightarrow> candidateLoop tz slots rest m)"

text \<open>Lines 440 to 500: the exact match.\<close>

definition exactMatch :: "int \<Rightarrow> parsedTime \<Rightarrow> timestamp list \<Rightarrow> timestamp option" where
  "exactMatch tz p slots =
     (if is24HourFormat p then findSlot tz slots (matchedHour p) (matchedMinute p)
      else case matchedPeriod p of
        Some per \<Rightarrow>
          (let hour24 = (if per = PM \<and> matchedHour p < 12 then matchedHour p + 12
                         else if per = AM \<and> matchedHour p = 12 then 0
                         else matchedHour p)
           in findSlot tz slots hour24 (matchedMinute p))
      | None \<Rightarrow> candidateLoop tz slots (candidateHours (matchedHour p)) (matchedMinute p))"

text \<open>
  \<^verbatim>\<open>.hour(h)\<close> and \<^verbatim>\<open>.minute(m)\<close> replace one local field and let an out-of-range
  value roll over; \<^verbatim>\<open>a.diff(b, 'minute')\<close> truncates toward zero.
\<close>

definition setHour :: "int \<Rightarrow> timestamp \<Rightarrow> int \<Rightarrow> timestamp" where
  "setHour tz t h = t + (h - hourOf tz t) * MS_PER_HOUR"

definition setMinute :: "int \<Rightarrow> timestamp \<Rightarrow> int \<Rightarrow> timestamp" where
  "setMinute tz t m = t + (m - minuteOf tz t) * MS_PER_MINUTE"

definition truncDiv :: "int \<Rightarrow> int \<Rightarrow> int" where
  "truncDiv a b = sgn a * (\<bar>a\<bar> div b)"

definition diffMinutes :: "timestamp \<Rightarrow> timestamp \<Rightarrow> int" where
  "diffMinutes a b = truncDiv (a - b) MS_PER_MINUTE"

definition possibleHours :: "parsedTime \<Rightarrow> int list" where
  "possibleHours p =
     (let h = matchedHour p in
      if is24HourFormat p \<or> h > 12 then [h]
      else if matchedPeriod p = Some PM \<and> h < 12 then [h + 12]
      else if matchedPeriod p = Some AM \<and> h = 12 then [0]
      else if matchedPeriod p = Some AM then [h]
      else if matchedPeriod p = Some PM \<and> h = 12 then [12]
      else [h] @ (if h \<le> 11 then [h + 12] else []) @ (if h = 12 then [0] else []))"

fun withinTolerance :: "int \<Rightarrow> timestamp \<Rightarrow> int list \<Rightarrow> int \<Rightarrow> bool" where
  "withinTolerance tz timeSlot [] m = False"
| "withinTolerance tz timeSlot (hour # rest) m =
     (if \<bar>diffMinutes timeSlot (setMinute tz (setHour tz timeSlot hour) m)\<bar> \<le> 15 then True
      else withinTolerance tz timeSlot rest m)"

text \<open>Lines 503 to 542: the fallback within 15 minutes.\<close>

fun fuzzyMatch :: "int \<Rightarrow> parsedTime \<Rightarrow> timestamp list \<Rightarrow> timestamp option" where
  "fuzzyMatch tz p [] = None"
| "fuzzyMatch tz p (timeSlot # rest) =
     (if withinTolerance tz timeSlot (possibleHours p) (matchedMinute p) then Some timeSlot
      else fuzzyMatch tz p rest)"

datatype selection = NotUnderstood | NoMatchingSlot | Selected timestamp

text \<open>Lines 336 to 562: from the text of the message to the slot it selects.\<close>

definition selectSlot :: "int \<Rightarrow> string \<Rightarrow> timestamp list \<Rightarrow> selection" where
  "selectSlot tz messageContent slots =
     (case parseTime (normalizeTime messageContent) of
        None \<Rightarrow> NotUnderstood
      | Some p \<Rightarrow>
          (case exactMatch tz p slots of
             Some t \<Rightarrow> Selected t
           | None \<Rightarrow>
               (case fuzzyMatch tz p slots of
                  Some t \<Rightarrow> Selected t
                | None \<Rightarrow> NoMatchingSlot)))"

section \<open>Conversation state machine\<close>

datatype stage = confirming_cancellation | selecting_date | selecting_time

text \<open>
  An entry of \<^verbatim>\<open>userReschedulingState\<close>.  A property that the program has not set is
  \<open>None\<close>.  \<open>currentAppointment\<close> is the record the dialogue captured when it began; the
  program holds a reference to that object, and every write it makes through the
  reference is followed by the same write through \<^verbatim>\<open>findIndex\<close> on the store and by the
  deletion of the entry, so the model keeps the write on the store only.
\<close>

record userState =
  currentAppointment :: appointment
  availableDates :: "date list option"
  stage :: stage
  selectedDate :: "date option"
  availableTimeSlots :: "timestamp list option"

text \<open>
  The globals of the program: the appointment list, the dialogue table keyed by phone,
  and the content of the seen-phones file.
\<close>

record botState =
  appointmentData :: "appointment list"
  userReschedulingState :: "string \<rightharpoonup> userState"
  seenAppointments :: "string set"

text \<open>
  The text of every reply is abstracted to what it says: one constructor for each
  message the handlers send, with the values the text is built from.
\<close>

datatype reply =
    NoAppointmentFound
  | NoDatesAvailable
  | DateOptions appointment "date list"
  | RescheduleRequestError
  | InvalidSelection
  | NoSlotsForDate
  | TimeOptions date "timestamp list"
  | DateSelectionError
  | TimeFormatNotUnderstood "timestamp list"
  | TimeSlotNotFound string "timestamp list"
  | RescheduleConfirmed timestamp timestamp
  | TimeSelectionError
  | NoAppointmentToCancel
  | RetentionMessage appointment
  | CancellationRequestError
  | Farewell string
  | AppointmentNotInSystem
  | CancellationError
  | NotSureWhatToDo

record message =
  contactNumber :: string
  body :: string
  hasMedia :: bool

text \<open>\<^verbatim>\<open>delete userReschedulingState[phone]\<close>\<close>

definition deleteState :: "botState \<Rightarrow> string \<Rightarrow> botState" where
  "deleteState st ph = st\<lparr>userReschedulingState := (userReschedulingState st)(ph := None)\<rparr>"

text \<open>
  \<^verbatim>\<open>await message.reply(r)\<close> inside a \<^verbatim>\<open>try\<close> block.  The transport may reject the
  call; \<open>replyThrows\<close> says that it does, and then control passes to the \<^verbatim>\<open>catch\<close> block,
  whose result is \<open>onCatch\<close>.  Otherwise the reply is delivered and the rest of the block
  leaves the state \<open>onSuccess\<close>.  The reply a \<^verbatim>\<open>catch\<close> block sends is taken as delivered.
\<close>

definition tryReply ::
  "bool \<Rightarrow> reply \<Rightarrow> botState \<Rightarrow> botState \<times> reply list \<Rightarrow> botState \<times> reply list"
where
  "tryReply replyThrows r onSuccess onCatch = (if replyThrows then onCatch else (onSuccess, [r]))"

text \<open>\<^verbatim>\<open>handleRescheduleRequest\<close>; its \<^verbatim>\<open>catch\<close> block sends the apology and nothing else.\<close>

definition handleRescheduleRequest ::
  "int \<Rightarrow> timestamp \<Rightarrow> bool \<Rightarrow> botState \<Rightarrow> string \<Rightarrow> botState \<times> reply list"
where
  "handleRescheduleRequest tz now replyThrows st ph =
     (case find (\<lambda>appt. phone appt = ph) (appointmentData st) of
        None \<Rightarrow> tryReply replyThrows NoAppointmentFound st (st, [RescheduleRequestError])
      | Some userAppointment \<Rightarrow>
          (let dates = getAvailableDates tz now 7 in
           if length dates = 0
           then tryReply replyThrows NoDatesAvailable st (st, [RescheduleRequestError])
           else
             (let st1 = st\<lparr>userReschedulingState := (userReschedulingState st)(ph \<mapsto>
                          \<lparr>currentAppointment = userAppointment, availableDates = Some dates,
                           stage = selecting_date, selectedDate = None,
                           availableTimeSlots = None\<rparr>)\<rparr>
              in tryReply replyThrows (DateOptions userAppointment dates) st1
                   (st1, [RescheduleRequestError]))))"

text \<open>
  \<^verbatim>\<open>handleDateSelection\<close>.  The test of the index reads \<^verbatim>\<open>userState.availableDates\<close> only
  when the index is a number that is not negative; a missing entry or a missing list
  throws there, into the \<^verbatim>\<open>catch\<close> block, which deletes the entry.
\<close>

definition handleDateSelection ::
  "int \<Rightarrow> bool \<Rightarrow> botState \<Rightarrow> string \<Rightarrow> string \<Rightarrow> botState \<times> reply list"
where
  "handleDateSelection tz replyThrows st ph messageContent =
     (let onCatch = (deleteState st ph, [DateSelectionError]);
          invalid = tryReply replyThrows InvalidSelection st onCatch
      in case jsParseInt (trim messageContent) of
           None \<Rightarrow> invalid
         | Some k \<Rightarrow>
             (let selectedDateIndex = k - 1 in
              if selectedDateIndex < 0 then invalid
              else case userReschedulingState st ph of
                None \<Rightarrow> onCatch
              | Some us \<Rightarrow>
                  (case availableDates us of
                     None \<Rightarrow> onCatch
                   | Some dates \<Rightarrow>
                       if selectedDateIndex \<ge> int (length dates) then invalid
                       else
                         (let d = dates ! nat selectedDateIndex;
                              us1 = us\<lparr>selectedDate := Some d, stage := selecting_time\<rparr>;
                              timeSlots = getAvailableTimeSlots tz (appointmentData st) d ph
                          in if length timeSlots = 0
                             then tryReply replyThrows NoSlotsForDate
                                    (st\<lparr>userReschedulingState := (userReschedulingState st)(ph \<mapsto>
                                          us1\<lparr>stage := selecting_date\<rparr>)\<rparr>)
                                    onCatch
                             else tryReply replyThrows (TimeOptions d timeSlots)
                                    (st\<lparr>userReschedulingState := (userReschedulingState st)(ph \<mapsto>
                                          us1\<lparr>availableTimeSlots := Some timeSlots\<rparr>)\<rparr>)
                                    onCatch))))"

text \<open>\<^verbatim>\<open>appointmentData[findIndex(...)].appointmentTime = selectedTime\<close>\<close>

fun setAppointmentTime :: "string \<Rightarrow> timestamp \<Rightarrow> appointment list \<Rightarrow> appointment list" where
  "setAppointmentTime ph t [] = []"
| "setAppointmentTime ph t (a # rest) =
     (if phone a = ph then a\<lparr>appointmentTime := t\<rparr> # rest
      else a # setAppointmentTime ph t rest)"

text \<open>
  \<^verbatim>\<open>handleTimeSelection\<close>.  Both the branch that did not understand the text and the
  matching loops read \<^verbatim>\<open>userState.availableTimeSlots\<close>, so a missing entry or list throws.
  On a selected slot the store is written before the confirmation is sent, and the entry
  is deleted whether the confirmation is delivered or not.
\<close>

definition handleTimeSelection ::
  "int \<Rightarrow> bool \<Rightarrow> botState \<Rightarrow> string \<Rightarrow> string \<Rightarrow> botState \<times> reply list"
where
  "handleTimeSelection tz replyThrows st ph messageContent =
     (let onCatch = (deleteState st ph, [TimeSelectionError])
      in case userReschedulingState st ph of
           None \<Rightarrow> onCatch
         | Some us \<Rightarrow>
             (case availableTimeSlots us of
                None \<Rightarrow> onCatch
              | Some slots \<Rightarrow>
                  (case selectSlot tz messageContent slots of
                     NotUnderstood \<Rightarrow> tryReply replyThrows (TimeFormatNotUnderstood slots) st onCatch
                   | NoMatchingSlot \<Rightarrow>
                       tryReply replyThrows (TimeSlotNotFound messageContent slots) st onCatch
                   | Selected selectedTime \<Rightarrow>
                       (let st1 = st\<lparr>appointmentData :=
                                       setAppointmentTime ph selectedTime (appointmentData st)\<rparr>
                        in tryReply replyThrows
                             (RescheduleConfirmed (appointmentTime (currentAppointment us)) selectedTime)
                             (deleteState st1 ph)
                             (deleteState st1 ph, [TimeSelectionError])))))"

text \<open>
  \<^verbatim>\<open>handleCancellationRequest\<close>.  The retention text comes from the text service or from
  the template; both are \<open>RetentionMessage\<close>.  The \<^verbatim>\<open>catch\<close> block sends the apology and
  nothing else.
\<close>

definition handleCancellationRequest ::
  "bool \<Rightarrow> botState \<Rightarrow> string \<Rightarrow> botState \<times> reply list"
where
  "handleCancellationRequest replyThrows st ph =
     (case find (\<lambda>appt. phone appt = ph) (appointmentData st) of
        None \<Rightarrow> tryReply replyThrows NoAppointmentToCancel st (st, [CancellationRequestError])
      | Some userAppointment \<Rightarrow>
          (let st1 = st\<lparr>userReschedulingState := (userReschedulingState st)(ph \<mapsto>
                       \<lparr>currentAppointment = userAppointment, availableDates = None,
                        stage = confirming_cancellation, selectedDate = None,
                        availableTimeSlots = None\<rparr>)\<rparr>
           in tryReply replyThrows (RetentionMessage userAppointment) st1
                (st1, [CancellationRequestError])))"

text \<open>\<^verbatim>\<open>appointmentData.splice(findIndex(...), 1)\<close>\<close>

fun removeFirst :: "string \<Rightarrow> appointment list \<Rightarrow> appointment list" where
  "removeFirst ph [] = []"
| "removeFirst ph (a # rest) = (if phone a = ph then rest else a # removeFirst ph rest)"

text \<open>\<^verbatim>\<open>processCancellation\<close>; reading the entry of a phone that has none throws.\<close>

definition processCancellation ::
  "bool \<Rightarrow> botState \<Rightarrow> string \<Rightarrow> botState \<times> reply list"
where
  "processCancellation replyThrows st ph =
     (case userReschedulingState st ph of
        None \<Rightarrow> (deleteState st ph, [CancellationError])
      | Some us \<Rightarrow>
          (case find (\<lambda>appt. phone appt = ph) (appointmentData st) of
             Some a \<Rightarrow>
               (let st1 = st\<lparr>appointmentData := removeFirst ph (appointmentData st)\<rparr>
                in tryReply replyThrows (Farewell (name (currentAppointment us)))
                     (deleteState st1 ph)
                     (deleteState st1 ph, [CancellationError]))
           | None \<Rightarrow>
               tryReply replyThrows AppointmentNotInSystem st
                 (deleteState st ph, [CancellationError])))"

text \<open>
  The handler of \<^verbatim>\<open>whatsappClient.on("message")\<close>.  The program starts each handler from
  a five-second timer; the model runs it at once, so the handler sees the state the
  routing saw.  The reply of the last branch of the confirmation stage is sent outside
  any \<^verbatim>\<open>try\<close> block: when the transport rejects it nothing is sent and nothing changes.
\<close>

definition onMessage ::
  "int \<Rightarrow> timestamp \<Rightarrow> bool \<Rightarrow> botState \<Rightarrow> message \<Rightarrow> botState \<times> reply list"
where
  "onMessage tz now replyThrows st msg =
     (let ph = contactNumber msg;
          messageContent = toLowerCase (body msg)
      in case find (\<lambda>appt. phone appt = ph) (appointmentData st) of
           None \<Rightarrow> (st, [])
         | Some userAppointment \<Rightarrow>
             if hasMedia msg then (st, [])
             else case userReschedulingState st ph of
               Some us \<Rightarrow>
                 (case stage us of
                    confirming_cancellation \<Rightarrow>
                      if str_includes messageContent ''confirm cancel''
                         \<or> str_includes messageContent ''confirm''
                         \<or> messageContent = ''cancel''
                         \<or> messageContent = ''yes''
                      then processCancellation replyThrows st ph
                      else if str_includes messageContent ''reschedule''
                      then handleRescheduleRequest tz now replyThrows st ph
                      else tryReply replyThrows NotSureWhatToDo st (st, [])
                  | selecting_date \<Rightarrow> handleDateSelection tz replyThrows st ph messageContent
                  | selecting_time \<Rightarrow> handleTimeSelection tz replyThrows st ph messageContent)
             | None \<Rightarrow>
                 if str_includes messageContent ''cancel''
                    \<or> str_includes messageContent ''cancellation''
                 then handleCancellationRequest replyThrows st ph
                 else if str_includes messageContent ''reschedule''
                 then handleRescheduleRequest tz now replyThrows st ph
                 else (st, []))"

section \<open>Appointment store and merge\<close>

text \<open>The accumulators of the merge in \<^verbatim>\<open>app.post("/upload")\<close>.\<close>

record mergeAcc =
  mergedAppointments :: "appointment list"
  processedPhones :: "string set"
  trulyNewAppointments :: "appointment list"
  newlySeenPhones :: "string set"

text \<open>\<^verbatim>\<open>for (const existingAppt of appointmentData)\<close>; \<^verbatim>\<open>isSame\<close> compares the instants.\<close>

fun mergeExisting :: "appointment list \<Rightarrow> appointment list \<Rightarrow> mergeAcc \<Rightarrow> mergeAcc" where
  "mergeExisting newAppointments [] acc = acc"
| "mergeExisting newAppointments (existingAppt # rest) acc =
     mergeExisting newAppointments rest
       (case find (\<lambda>newAppt. phone newAppt = phone existingAppt) newAppointments of
          Some matchingNewAppt \<Rightarrow>
            if appointmentTime existingAppt \<noteq> appointmentTime matchingNewAppt
            then acc\<lparr>mergedAppointments :=
                        mergedAppointments acc @ [existingAppt\<lparr>isRescheduled := True\<rparr>],
                      processedPhones := insert (phone existingAppt) (processedPhones acc)\<rparr>
            else acc
        | None \<Rightarrow>
            acc\<lparr>mergedAppointments :=
                   mergedAppointments acc @ [existingAppt\<lparr>isExisting := True\<rparr>],
                 processedPhones := insert (phone existingAppt) (processedPhones acc)\<rparr>)"

text \<open>\<^verbatim>\<open>for (const newAppt of newAppointments)\<close>\<close>

fun mergeNew :: "string set \<Rightarrow> appointment list \<Rightarrow> mergeAcc \<Rightarrow> mergeAcc" where
  "mergeNew seenPhones [] acc = acc"
| "mergeNew seenPhones (newAppt # rest) acc =
     mergeNew seenPhones rest
       (if phone newAppt \<notin> processedPhones acc
        then (let acc1 = acc\<lparr>mergedAppointments := mergedAppointments acc @ [newAppt],
                               processedPhones := insert (phone newAppt) (processedPhones acc)\<rparr>
              in if phone newAppt \<notin> seenPhones
                 then acc1\<lparr>trulyNewAppointments := trulyNewAppointments acc1 @ [newAppt],
                           newlySeenPhones := insert (phone newAppt) (newlySeenPhones acc1)\<rparr>
                 else acc1)
        else acc)"

definition smartMerge :: "string set \<Rightarrow> appointment list \<Rightarrow> appointment list \<Rightarrow> mergeAcc" where
  "smartMerge seenPhones existing newAppointments =
     mergeNew seenPhones newAppointments
       (mergeExisting newAppointments existing
          \<lparr>mergedAppointments = [], processedPhones = {}, trulyNewAppointments = [],
           newlySeenPhones = seenPhones\<rparr>)"

text \<open>
  \<^verbatim>\<open>app.post("/upload")\<close> from the rows already normalised (\<open>newAppointments\<close>, each marked
  \<^verbatim>\<open>isFromUpload\<close>): an upload with no valid row is answered with status 400 and changes
  nothing.
\<close>

definition upload :: "botState \<Rightarrow> appointment list \<Rightarrow> botState" where
  "upload st newAppointments =
     (if length newAppointments = 0 then st
      else (let m = smartMerge (seenAppointments st) (appointmentData st) newAppointments
            in st\<lparr>appointmentData := mergedAppointments m,
                  seenAppointments := newlySeenPhones m\<rparr>))"

text \<open>\<^verbatim>\<open>app.post("/clear-appointments")\<close>\<close>

definition clearAppointments :: "botState \<Rightarrow> botState" where
  "clearAppointments st = st\<lparr>appointmentData := []\<rparr>"

section \<open>Reminder scheduler\<close>

datatype reminder = Countdown appointment int | FiveHour appointment

text \<open>\<^verbatim>\<open>.startOf('day')\<close> and \<^verbatim>\<open>a.diff(b, 'day')\<close>, which truncates toward zero.\<close>

definition startOfDay :: "int \<Rightarrow> timestamp \<Rightarrow> timestamp" where
  "startOfDay tz t = t - (t + tz) mod MS_PER_DAY"

definition diffDays :: "timestamp \<Rightarrow> timestamp \<Rightarrow> int" where
  "diffDays a b = truncDiv (a - b) MS_PER_DAY"

definition daysUntilAppointment :: "int \<Rightarrow> timestamp \<Rightarrow> appointment \<Rightarrow> int" where
  "daysUntilAppointment tz now a =
     diffDays (startOfDay tz (appointmentTime a)) (startOfDay tz now)"

text \<open>The condition of the countdown reminder, line 1344.\<close>

definition countdownDue :: "int \<Rightarrow> timestamp \<Rightarrow> appointment \<Rightarrow> bool" where
  "countdownDue tz now a =
     (hourOf tz now = 11 \<and> minuteOf tz now = 30
      \<and> daysUntilAppointment tz now a > 0 \<and> daysUntilAppointment tz now a \<le> 7)"

text \<open>
  The condition of the five-hour reminder, line 1367: both sides printed to the minute.
\<close>

definition fiveHourDue :: "int \<Rightarrow> timestamp \<Rightarrow> appointment \<Rightarrow> bool" where
  "fiveHourDue tz now a =
     ((now + tz) div MS_PER_MINUTE = (appointmentTime a - 5 * MS_PER_HOUR + tz) div MS_PER_MINUTE)"

text \<open>
  One pass of the loop body for one appointment: the reminders whose branch is entered
  and whose message is built.  A tick sends them when the client is connected.
\<close>

definition tickAppointment :: "int \<Rightarrow> timestamp \<Rightarrow> appointment \<Rightarrow> reminder list" where
  "tickAppointment tz now a =
     (if countdownDue tz now a then [Countdown a (daysUntilAppointment tz now a)] else [])
     @ (if fiveHourDue tz now a then [FiveHour a] else [])"

definition reminderTick :: "int \<Rightarrow> bool \<Rightarrow> timestamp \<Rightarrow> appointment list \<Rightarrow> reminder list" where
  "reminderTick tz connected now appts =
     (if length appts = 0 then []
      else concat (map (\<lambda>a. if connected then tickAppointment tz now a else []) appts))"

section \<open>Properties of the availability engine\<close>

declare datesLoop.simps [simp del]
declare slotLoop.simps [simp del]

lemma datesLoop_eq:
  "datesLoop today n i acc =
     acc @ filter (\<lambda>d. hasBusinessHours (dayOfWeek d)) (map (\<lambda>j. today + j) [i..n])"
proof (induction today n i acc rule: datesLoop.induct)
  case (1 today numDays i acc)
  show ?case
  proof (cases "i \<le> numDays")
    case True
    then have u: "[i..numDays] = i # [i + 1..numDays]" by (simp add: upto_rec1)
    show ?thesis
      using True "1.IH" [OF True] by (subst datesLoop.simps) (simp add: u)
  next
    case False
    then show ?thesis by (subst datesLoop.simps) simp
  qed
qed

lemma getAvailableDates_eq:
  "getAvailableDates tz now n =
     filter (\<lambda>d. hasBusinessHours (dayOfWeek d)) (map (\<lambda>j. dateOf tz now + j) [1..n])"
  by (simp add: getAvailableDates_def datesLoop_eq)

lemma hasBusinessHours_iff: "hasBusinessHours w \<longleftrightarrow> 1 \<le> w \<and> w \<le> 6"
  by (auto simp: hasBusinessHours_def BUSINESS_HOURS_def)

lemma dayOfWeek_add: "0 \<le> i \<Longrightarrow> dayOfWeek (d + i) = (dayOfWeek d + nat i) mod 7"
proof -
  assume i: "0 \<le> i"
  have "(d + i + 4) mod 7 = ((d + 4) mod 7 + i) mod 7"
    by presburger
  moreover have "0 \<le> (d + 4) mod 7" by simp
  ultimately show ?thesis
    unfolding dayOfWeek_def using i
    by (simp add: nat_mod_distrib nat_add_distrib)
qed

lemma upto_1_7: "[1..7::int] = [1, 2, 3, 4, 5, 6, 7]"
  by (simp add: upto_rec1)

lemma week_after_saturday:
  assumes "dayOfWeek today = 6"
  shows "filter (\<lambda>d. hasBusinessHours (dayOfWeek d)) (map (\<lambda>j. today + j) [1..7])
         = [today + 2, today + 3, today + 4, today + 5, today + 6, today + 7]"
  using assms by (simp add: upto_1_7 hasBusinessHours_iff dayOfWeek_add)

lemma sorted_wrt_shifted_upto: "sorted_wrt (<) (map (\<lambda>j. (a::int) + j) [i..n])"
  by (simp add: sorted_wrt_map sorted_wrt_iff_nth_less)

text \<open>
  C7.  \<^verbatim>\<open>getAvailableDates(n)\<close> is the days \<open>today + 1, \<dots>, today + n\<close> in that order,
  with exactly the days kept whose weekday has business hours.  So it has at most \<open>n\<close>
  dates, none on a Sunday (the closed weekday of the table), in increasing order; and
  when today is a Saturday a horizon of 7 gives the six days after tomorrow's Sunday.
\<close>

theorem getAvailableDates_horizon:
  "getAvailableDates tz now n
     = filter (\<lambda>d. hasBusinessHours (dayOfWeek d)) (map (\<lambda>j. dateOf tz now + j) [1..n])
   \<and> int (length (getAvailableDates tz now n)) \<le> max 0 n
   \<and> (\<forall>d \<in> set (getAvailableDates tz now n).
         hasBusinessHours (dayOfWeek d) \<and> dayOfWeek d \<noteq> 0
         \<and> dateOf tz now < d \<and> d \<le> dateOf tz now + n)
   \<and> sorted_wrt (<) (getAvailableDates tz now n)
   \<and> (dayOfWeek (dateOf tz now) = 6 \<longrightarrow>
         length (getAvailableDates tz now 7) = 6
         \<and> dateOf tz now + 1 \<notin> set (getAvailableDates tz now 7)
         \<and> dayOfWeek (dateOf tz now + 1) = 0)"
proof -
  let ?today = "dateOf tz now"
  let ?all = "map (\<lambda>j. ?today + j) [1..n]"
  have eq: "getAvailableDates tz now n = filter (\<lambda>d. hasBusinessHours (dayOfWeek d)) ?all"
    by (rule getAvailableDates_eq)
  have "length (getAvailableDates tz now n) \<le> length ?all"
    unfolding eq by (rule length_filter_le)
  then have len: "int (length (getAvailableDates tz now n)) \<le> max 0 n"
    by simp
  have mem: "\<forall>d \<in> set (getAvailableDates tz now n).
         hasBusinessHours (dayOfWeek d) \<and> dayOfWeek d \<noteq> 0 \<and> ?today < d \<and> d \<le> ?today + n"
    unfolding eq by (auto simp: hasBusinessHours_iff)
  have srt: "sorted_wrt (<) (getAvailableDates tz now n)"
    unfolding eq by (intro sorted_wrt_filter sorted_wrt_shifted_upto)
  have sat: "dayOfWeek ?today = 6 \<longrightarrow>
         length (getAvailableDates tz now 7) = 6
         \<and> ?today + 1 \<notin> set (getAvailableDates tz now 7)
         \<and> dayOfWeek (?today + 1) = 0"
    by (simp add: getAvailableDates_eq week_after_saturday dayOfWeek_add)
  from eq len mem srt sat show ?thesis by blast
qed

text \<open>2024-01-13 is day 19735, a Saturday; the week after it at 09:00 UTC.\<close>

theorem getAvailableDates_horizon_witness:
  "dayOfWeek (dateOf 0 (atLocal 0 19735 9 0)) = 6
   \<and> getAvailableDates 0 (atLocal 0 19735 9 0) 7 = [19737, 19738, 19739, 19740, 19741, 19742]
   \<and> length (getAvailableDates 0 (atLocal 0 19735 9 0) 7) = 6
   \<and> (19736::int) \<notin> set (getAvailableDates 0 (atLocal 0 19735 9 0) 7)
   \<and> dayOfWeek 19736 = 0
   \<and> sorted_wrt (<) (getAvailableDates 0 (atLocal 0 19735 9 0) 7)"
proof -
  have d: "dateOf 0 (atLocal 0 19735 9 0) = 19735"
    by (simp add: dateOf_def atLocal_def MS_PER_DAY_def MS_PER_HOUR_def MS_PER_MINUTE_def)
  have sat: "dayOfWeek (dateOf 0 (atLocal 0 19735 9 0)) = 6"
    by (simp add: d dayOfWeek_def)
  have l: "getAvailableDates 0 (atLocal 0 19735 9 0) 7 = [19737, 19738, 19739, 19740, 19741, 19742]"
    using getAvailableDates_horizon [of 0 "atLocal 0 19735 9 0" 7]
    by (simp add: d upto_1_7 hasBusinessHours_iff dayOfWeek_def)
  note T = getAvailableDates_horizon [of 0 "atLocal 0 19735 9 0" 7]
  have a: "length (getAvailableDates 0 (atLocal 0 19735 9 0) 7) = 6"
    using T sat by blast
  have b: "dateOf 0 (atLocal 0 19735 9 0) + 1 \<notin> set (getAvailableDates 0 (atLocal 0 19735 9 0) 7)"
    using T sat by blast
  have c: "sorted_wrt (<) (getAvailableDates 0 (atLocal 0 19735 9 0) 7)"
    using T by blast
  have s: "dayOfWeek 19736 = 0"
    by (simp add: dayOfWeek_def)
  from b have b': "(19736::int) \<notin> set (getAvailableDates 0 (atLocal 0 19735 9 0) 7)"
    by (simp only: d) simp
  from sat l a b' c s show ?thesis by blast
qed

lemma isTimeSlotAvailable_iff:
  "isTimeSlotAvailable tz appts t ph \<longleftrightarrow>
     \<not> (\<exists>a \<in> set appts. phone a \<noteq> ph \<and> dateOf tz t = dateOf tz (appointmentTime a)
            \<and> \<bar>t - appointmentTime a\<bar> < MS_PER_HOUR)"
  by (induction appts) auto

lemma dateOf_atLocal:
  "0 \<le> h \<Longrightarrow> h < 24 \<Longrightarrow> 0 \<le> m \<Longrightarrow> m < 60 \<Longrightarrow> dateOf tz (atLocal tz d h m) = d"
proof -
  assume b: "0 \<le> h" "h < 24" "0 \<le> m" "m < 60"
  let ?r = "h * 3600000 + m * 60000"
  have r: "0 \<le> ?r" "?r < 86400000" using b by auto
  have "(d * 86400000 + ?r) div 86400000 = d"
    using r by (simp add: div_pos_pos_trivial)
  then show ?thesis
    by (simp add: dateOf_def atLocal_def MS_PER_DAY_def MS_PER_HOUR_def MS_PER_MINUTE_def add.assoc)
qed

text \<open>
  C5.  A proposed slot is available exactly when no appointment of another phone is on
  the same local date and less than one hour (\<open>MS_PER_HOUR\<close> milliseconds) away.  The
  appointments of the excluded phone never make it unavailable, and neither does an
  appointment on another local date: a slot at 00:30 next to an appointment of another
  phone at 23:30 the evening before is available, and so is one at 00:15 next to 23:45.
\<close>

theorem isTimeSlotAvailable_conflict_rule:
  "(isTimeSlotAvailable tz appts t ph \<longleftrightarrow>
      \<not> (\<exists>a \<in> set appts. phone a \<noteq> ph \<and> dateOf tz t = dateOf tz (appointmentTime a)
             \<and> \<bar>t - appointmentTime a\<bar> < TIME_SLOT_DURATION * MS_PER_MINUTE))
   \<and> ((\<forall>a \<in> set appts. phone a = ph) \<longrightarrow> isTimeSlotAvailable tz appts t ph)
   \<and> ((\<forall>a \<in> set appts. phone a \<noteq> ph \<longrightarrow> dateOf tz (appointmentTime a) \<noteq> dateOf tz t)
        \<longrightarrow> isTimeSlotAvailable tz appts t ph)
   \<and> (appointmentTime b = atLocal tz d 23 30 \<longrightarrow>
        isTimeSlotAvailable tz [b] (atLocal tz (d + 1) 0 30) ph)
   \<and> (appointmentTime b = atLocal tz d 23 45 \<longrightarrow>
        isTimeSlotAvailable tz [b] (atLocal tz (d + 1) 0 15) ph)"
proof -
  have hour: "TIME_SLOT_DURATION * MS_PER_MINUTE = MS_PER_HOUR"
    by (simp add: TIME_SLOT_DURATION_def MS_PER_MINUTE_def MS_PER_HOUR_def)
  have d1: "dateOf tz (atLocal tz d 23 30) = d" "dateOf tz (atLocal tz d 23 45) = d"
    by (simp_all add: dateOf_atLocal)
  have d2: "dateOf tz (atLocal tz (d + 1) 0 30) = d + 1" "dateOf tz (atLocal tz (d + 1) 0 15) = d + 1"
    by (simp_all add: dateOf_atLocal)
  show ?thesis
    unfolding hour isTimeSlotAvailable_iff
    by (auto simp: d1 d2)
qed

text \<open>
  An appointment of phone 222 on day 19786 (2024-03-04) at 14:00: the slot at 14:00 and
  the slot at 13:00 that day are available to 222 and to nobody else; the slot at 15:00
  is available to everyone.
\<close>

theorem isTimeSlotAvailable_conflict_rule_witness:
  "\<not> isTimeSlotAvailable 0
       [\<lparr>name = ''B'', phone = ''222'', appointmentTime = atLocal 0 19786 14 0,
         isFromUpload = True, isRescheduled = False, isExisting = False\<rparr>]
       (atLocal 0 19786 14 0) ''111''
   \<and> isTimeSlotAvailable 0
       [\<lparr>name = ''B'', phone = ''222'', appointmentTime = atLocal 0 19786 14 0,
         isFromUpload = True, isRescheduled = False, isExisting = False\<rparr>]
       (atLocal 0 19786 14 0) ''222''
   \<and> isTimeSlotAvailable 0
       [\<lparr>name = ''B'', phone = ''222'', appointmentTime = atLocal 0 19786 14 0,
         isFromUpload = True, isRescheduled = False, isExisting = False\<rparr>]
       (atLocal 0 19786 15 0) ''111''
   \<and> isTimeSlotAvailable 0
       [\<lparr>name = ''B'', phone = ''222'', appointmentTime = atLocal 0 19786 23 30,
         isFromUpload = True, isRescheduled = False, isExisting = False\<rparr>]
       (atLocal 0 19787 0 30) ''111''"
proof -
  let ?b = "\<lparr>name = ''B'', phone = ''222'', appointmentTime = atLocal 0 19786 14 0,
         isFromUpload = True, isRescheduled = False, isExisting = False\<rparr>"
  let ?c = "\<lparr>name = ''B'', phone = ''222'', appointmentTime = atLocal 0 19786 23 30,
         isFromUpload = True, isRescheduled = False, isExisting = False\<rparr>"
  have v: "atLocal 0 19786 14 0 = 1709560800000" "atLocal 0 19786 15 0 = 1709564400000"
    by (simp_all add: atLocal_def MS_PER_DAY_def MS_PER_HOUR_def MS_PER_MINUTE_def)
  have k: "TIME_SLOT_DURATION * MS_PER_MINUTE = 3600000"
    by (simp add: TIME_SLOT_DURATION_def MS_PER_MINUTE_def)
  have 1: "\<not> isTimeSlotAvailable 0 [?b] (atLocal 0 19786 14 0) ''111''"
    using isTimeSlotAvailable_conflict_rule [of 0 "[?b]" "atLocal 0 19786 14 0" "''111''" ?b 0, THEN conjunct1]
    by (simp add: k)
  have 2: "isTimeSlotAvailable 0 [?b] (atLocal 0 19786 14 0) ''222''"
    using isTimeSlotAvailable_conflict_rule [of 0 "[?b]" "atLocal 0 19786 14 0" "''222''" ?b 0]
    by simp
  have 3: "isTimeSlotAvailable 0 [?b] (atLocal 0 19786 15 0) ''111''"
    using isTimeSlotAvailable_conflict_rule [of 0 "[?b]" "atLocal 0 19786 15 0" "''111''" ?b 0, THEN conjunct1]
    by (simp add: k v)
  have 4: "isTimeSlotAvailable 0 [?c] (atLocal 0 19787 0 30) ''111''"
    using isTimeSlotAvailable_conflict_rule [of 0 "[?c]" "atLocal 0 19787 0 30" "''111''" ?c 19786,
        THEN conjunct2, THEN conjunct2, THEN conjunct2, THEN conjunct1]
    by (simp del: isTimeSlotAvailable.simps)
  from 1 2 3 4 show ?thesis by blast
qed

lemma slotLoop_acc:
  "slotLoop tz appts ph cur e acc = acc @ slotLoop tz appts ph cur e []"
proof (induction "nat (e - cur)" arbitrary: cur acc rule: less_induct)
  case less
  show ?case
  proof (cases "cur < e")
    case True
    let ?next = "cur + TIME_SLOT_DURATION * MS_PER_MINUTE"
    have dec: "nat (e - ?next) < nat (e - cur)"
      using True by (simp add: TIME_SLOT_DURATION_def MS_PER_MINUTE_def)
    have "slotLoop tz appts ph cur e acc =
            (if isTimeSlotAvailable tz appts cur ph then acc @ [cur] else acc)
            @ slotLoop tz appts ph ?next e []"
      by (subst slotLoop.simps, subst less [OF dec]) (simp add: True)
    moreover have "slotLoop tz appts ph cur e [] =
            (if isTimeSlotAvailable tz appts cur ph then [cur] else [])
            @ slotLoop tz appts ph ?next e []"
      by (subst slotLoop.simps, subst less [OF dec]) (simp add: True)
    ultimately show ?thesis by simp
  next
    case False
    then show ?thesis by (simp add: slotLoop.simps)
  qed
qed

lemma slotLoop_step:
  "cur < e \<Longrightarrow> slotLoop tz appts ph cur e [] =
     (if isTimeSlotAvailable tz appts cur ph then [cur] else [])
       @ slotLoop tz appts ph (cur + SLOT_MS) e []"
  unfolding SLOT_MS_def
  by (subst slotLoop.simps, subst slotLoop_acc) simp

lemma slotLoop_stop: "\<not> cur < e \<Longrightarrow> slotLoop tz appts ph cur e [] = []"
  by (simp add: slotLoop.simps)

lemma SLOT_MS_pos: "0 < SLOT_MS"
  by (simp add: SLOT_MS_def TIME_SLOT_DURATION_def MS_PER_MINUTE_def)

text \<open>The loop yields the progression from \<open>cur\<close> in steps of one slot, filtered.\<close>

lemma slotLoop_eq:
  "slotLoop tz appts ph cur e [] =
     filter (\<lambda>t. isTimeSlotAvailable tz appts t ph)
       (map (\<lambda>k. cur + int k * SLOT_MS) [0..<nat ((e - cur + SLOT_MS - 1) div SLOT_MS)])"
proof (induction "nat (e - cur)" arbitrary: cur rule: less_induct)
  case less
  show ?case
  proof (cases "cur < e")
    case True
    let ?n = "nat ((e - cur + SLOT_MS - 1) div SLOT_MS)"
    let ?m = "nat ((e - (cur + SLOT_MS) + SLOT_MS - 1) div SLOT_MS)"
    have "(e - cur + SLOT_MS - 1) div SLOT_MS = (e - (cur + SLOT_MS) + SLOT_MS - 1) div SLOT_MS + 1"
    proof -
      have "e - cur + SLOT_MS - 1 = (e - (cur + SLOT_MS) + SLOT_MS - 1) + SLOT_MS" by simp
      then show ?thesis using SLOT_MS_pos by (simp only: div_add_self2)
    qed
    moreover have "0 \<le> (e - (cur + SLOT_MS) + SLOT_MS - 1) div SLOT_MS"
      using True SLOT_MS_pos by (simp add: pos_imp_zdiv_nonneg_iff)
    ultimately have n: "?n = Suc ?m" by simp
    have dec: "nat (e - (cur + SLOT_MS)) < nat (e - cur)"
      using True SLOT_MS_pos by simp
    have m: "map (\<lambda>k. cur + int k * SLOT_MS) [0..<Suc ?m]
              = cur # map (\<lambda>k. cur + SLOT_MS + int k * SLOT_MS) [0..<?m]"
      by (subst map_upt_Suc) (simp add: algebra_simps)
    show ?thesis
      by (simp only: slotLoop_step [OF True] less [OF dec] n m) simp
  next
    case False
    then have "(e - cur + SLOT_MS - 1) div SLOT_MS \<le> (SLOT_MS - 1) div SLOT_MS"
      using SLOT_MS_pos by (intro zdiv_mono1) simp_all
    moreover have "(SLOT_MS - 1) div SLOT_MS = 0"
      using SLOT_MS_pos by (simp add: div_pos_pos_trivial)
    ultimately have "(e - cur + SLOT_MS - 1) div SLOT_MS \<le> 0" by simp
    with False show ?thesis by (simp add: slotLoop_stop)
  qed
qed

lemma getAvailableTimeSlots_open:
  assumes "BUSINESS_HOURS (dayOfWeek d) = Some h" "openAt h = Some (oh, om)" "closeAt h = Some (ch, cm)"
  shows "getAvailableTimeSlots tz appts d ph =
     filter (\<lambda>t. isTimeSlotAvailable tz appts t ph)
       (map (\<lambda>k. atLocal tz d oh om + int k * SLOT_MS)
          [0..<nat ((atLocal tz d ch cm - atLocal tz d oh om + SLOT_MS - 1) div SLOT_MS)])"
  using assms by (simp add: getAvailableTimeSlots_def slotLoop_eq)

lemma BUSINESS_HOURS_cases:
  assumes "BUSINESS_HOURS w = Some h" "openAt h = Some (oh, om)" "closeAt h = Some (ch, cm)"
  shows "oh = 10 \<and> om = 0 \<and> ch = 21 \<and> cm = 0"
  using assms by (auto simp: BUSINESS_HOURS_def split: if_splits)

lemma slot_count:
  "nat ((atLocal tz d 21 0 - atLocal tz d 10 0 + SLOT_MS - 1) div SLOT_MS) = 11"
  by (simp add: atLocal_def SLOT_MS_def TIME_SLOT_DURATION_def MS_PER_MINUTE_def MS_PER_HOUR_def)

lemma sorted_wrt_progression:
  "0 < s \<Longrightarrow> sorted_wrt (<) (map (\<lambda>k. (a::int) + int k * s) [0..<n])"
  by (simp add: sorted_wrt_iff_nth_less)

text \<open>The candidate slots of an open day, and what is returned of them.\<close>

lemma getAvailableTimeSlots_progression:
  assumes "hasBusinessHours (dayOfWeek d)"
  shows "getAvailableTimeSlots tz appts d ph =
     filter (\<lambda>t. isTimeSlotAvailable tz appts t ph)
       (map (\<lambda>k. atLocal tz d 10 0 + int k * SLOT_MS) [0..<11])"
proof -
  from assms obtain h where h: "BUSINESS_HOURS (dayOfWeek d) = Some h" "openAt h \<noteq> None"
    by (auto simp: hasBusinessHours_def split: option.splits)
  then have "openAt h = Some (10, 0)" "closeAt h = Some (21, 0)"
    by (auto simp: BUSINESS_HOURS_def split: if_splits)
  with h show ?thesis
    using getAvailableTimeSlots_open [of d h 10 0 21 0 tz appts ph] by (simp add: slot_count)
qed

text \<open>
  C6.  On a weekday that the table marks closed \<^verbatim>\<open>getAvailableTimeSlots\<close> returns no
  slot.  On an open day, with \<open>opens\<close> and \<open>closes\<close> the instants of the day's open and
  close time, the slots it generates (what it returns when nothing is booked) begin at
  \<open>opens\<close>, step by exactly \<open>TIME_SLOT_DURATION\<close> minutes, are all before \<open>closes\<close>, reach
  the last step before \<open>closes\<close>, and increase; what it returns for a given store is
  these slots with the unavailable ones removed, so it increases and lies in
  \<open>[opens, closes)\<close> too.
\<close>

theorem getAvailableTimeSlots_generation:
  "(\<not> hasBusinessHours (dayOfWeek d) \<longrightarrow> getAvailableTimeSlots tz appts d ph = []) \<and>
   (\<forall>h oh om ch cm.
      BUSINESS_HOURS (dayOfWeek d) = Some h \<and> openAt h = Some (oh, om) \<and> closeAt h = Some (ch, cm) \<longrightarrow>
      (let gen = getAvailableTimeSlots tz [] d ph;
           res = getAvailableTimeSlots tz appts d ph;
           opens = atLocal tz d oh om;
           closes = atLocal tz d ch cm
       in res = filter (\<lambda>t. isTimeSlotAvailable tz appts t ph) gen
          \<and> gen \<noteq> [] \<and> hd gen = opens
          \<and> (\<forall>i. Suc i < length gen \<longrightarrow> gen ! Suc i - gen ! i = TIME_SLOT_DURATION * MS_PER_MINUTE)
          \<and> (\<forall>t \<in> set gen. t < closes)
          \<and> closes \<le> last gen + TIME_SLOT_DURATION * MS_PER_MINUTE
          \<and> sorted_wrt (<) gen
          \<and> sorted_wrt (<) res
          \<and> (\<forall>t \<in> set res. opens \<le> t \<and> t < closes)))"
proof (intro conjI impI allI)
  assume "\<not> hasBusinessHours (dayOfWeek d)"
  then show "getAvailableTimeSlots tz appts d ph = []"
    by (auto simp: getAvailableTimeSlots_def hasBusinessHours_def split: option.splits)
next
  fix h oh om ch cm
  assume a: "BUSINESS_HOURS (dayOfWeek d) = Some h \<and> openAt h = Some (oh, om) \<and> closeAt h = Some (ch, cm)"
  then have v: "oh = 10" "om = 0" "ch = 21" "cm = 0"
    using BUSINESS_HOURS_cases [of "dayOfWeek d" h oh om ch cm] by simp_all
  from a have opn: "hasBusinessHours (dayOfWeek d)"
    by (simp add: hasBusinessHours_def)
  define prog where "prog = map (\<lambda>k. atLocal tz d 10 0 + int k * SLOT_MS) [0..<11]"
  have gen: "getAvailableTimeSlots tz [] d ph = prog"
    using getAvailableTimeSlots_progression [OF opn, of tz "[]" ph] by (simp add: prog_def)
  have res: "getAvailableTimeSlots tz appts d ph = filter (\<lambda>t. isTimeSlotAvailable tz appts t ph) prog"
    using getAvailableTimeSlots_progression [OF opn, of tz appts ph] by (simp add: prog_def)
  have len: "length prog = 11" by (simp add: prog_def)
  have nth: "\<And>i. i < 11 \<Longrightarrow> prog ! i = atLocal tz d 10 0 + int i * SLOT_MS"
    by (simp add: prog_def del: upt_Suc)
  have S: "SLOT_MS = 3600000"
    by (simp add: SLOT_MS_def TIME_SLOT_DURATION_def MS_PER_MINUTE_def)
  have p1: "prog \<noteq> []" using len by auto
  have p2: "hd prog = atLocal tz d 10 0"
    using nth [of 0] p1 by (simp add: hd_conv_nth)
  have p3: "\<forall>i. Suc i < length prog \<longrightarrow> prog ! Suc i - prog ! i = TIME_SLOT_DURATION * MS_PER_MINUTE"
    using nth by (simp add: len SLOT_MS_def algebra_simps)
  have p4: "\<forall>t \<in> set prog. atLocal tz d 10 0 \<le> t \<and> t < atLocal tz d 21 0"
    by (auto simp: prog_def S atLocal_def MS_PER_HOUR_def MS_PER_MINUTE_def simp del: upt_Suc)
  have p5: "atLocal tz d 21 0 \<le> last prog + TIME_SLOT_DURATION * MS_PER_MINUTE"
    using nth [of 10] p1
    by (simp add: last_conv_nth len S atLocal_def MS_PER_HOUR_def MS_PER_MINUTE_def TIME_SLOT_DURATION_def)
  have p6: "sorted_wrt (<) prog"
    unfolding prog_def by (rule sorted_wrt_progression) (simp add: S)
  have p7: "sorted_wrt (<) (filter (\<lambda>t. isTimeSlotAvailable tz appts t ph) prog)"
    using p6 by (rule sorted_wrt_filter)
  show "let gen = getAvailableTimeSlots tz [] d ph;
           res = getAvailableTimeSlots tz appts d ph;
           opens = atLocal tz d oh om;
           closes = atLocal tz d ch cm
       in res = filter (\<lambda>t. isTimeSlotAvailable tz appts t ph) gen
          \<and> gen \<noteq> [] \<and> hd gen = opens
          \<and> (\<forall>i. Suc i < length gen \<longrightarrow> gen ! Suc i - gen ! i = TIME_SLOT_DURATION * MS_PER_MINUTE)
          \<and> (\<forall>t \<in> set gen. t < closes)
          \<and> closes \<le> last gen + TIME_SLOT_DURATION * MS_PER_MINUTE
          \<and> sorted_wrt (<) gen
          \<and> sorted_wrt (<) res
          \<and> (\<forall>t \<in> set res. opens \<le> t \<and> t < closes)"
    unfolding Let_def gen res v
    using p1 p2 p3 p4 p5 p6 p7 by simp
qed

lemma upt_0_11: "[0..<11] = [0, 1, 2, 3, 4, 5, 6, 7, 8, 9, 10]"
  by code_simp

text \<open>
  Day 19786 is Monday 2024-03-04; day 19785 is the Sunday before.  With phone 222 booked
  at 14:00, phone 111 is offered the hours from 10:00 to 20:00 without 14:00.
\<close>

theorem getAvailableTimeSlots_generation_witness:
  "\<not> hasBusinessHours (dayOfWeek 19785)
   \<and> getAvailableTimeSlots 0 [] 19785 ''111'' = []
   \<and> BUSINESS_HOURS (dayOfWeek 19786) = Some \<lparr>openAt = Some (10, 0), closeAt = Some (21, 0)\<rparr>
   \<and> hd (getAvailableTimeSlots 0 [] 19786 ''111'') = atLocal 0 19786 10 0
   \<and> last (getAvailableTimeSlots 0 [] 19786 ''111'') < atLocal 0 19786 21 0
   \<and> getAvailableTimeSlots 0
        [\<lparr>name = ''B'', phone = ''222'', appointmentTime = atLocal 0 19786 14 0,
          isFromUpload = True, isRescheduled = False, isExisting = False\<rparr>] 19786 ''111''
      = [atLocal 0 19786 10 0, atLocal 0 19786 11 0, atLocal 0 19786 12 0, atLocal 0 19786 13 0,
         atLocal 0 19786 15 0, atLocal 0 19786 16 0, atLocal 0 19786 17 0, atLocal 0 19786 18 0,
         atLocal 0 19786 19 0, atLocal 0 19786 20 0]"
proof -
  let ?b = "\<lparr>name = ''B'', phone = ''222'', appointmentTime = atLocal 0 19786 14 0,
          isFromUpload = True, isRescheduled = False, isExisting = False\<rparr>"
  let ?h = "\<lparr>openAt = Some (10, 0), closeAt = Some (21, 0)\<rparr>"
  have sun: "\<not> hasBusinessHours (dayOfWeek 19785)"
    by (simp add: hasBusinessHours_iff dayOfWeek_def)
  have mon: "BUSINESS_HOURS (dayOfWeek 19786) = Some ?h"
    by (simp add: BUSINESS_HOURS_def dayOfWeek_def)
  have hyp: "BUSINESS_HOURS (dayOfWeek 19786) = Some ?h \<and> openAt ?h = Some (10, 0)
             \<and> closeAt ?h = Some (21, 0)"
    using mon by simp
  note closed = getAvailableTimeSlots_generation [of 19785 0 "[]" "''111''", THEN conjunct1, rule_format, OF sun]
  note opened = getAvailableTimeSlots_generation [of 19786 0 "[?b]" "''111''", THEN conjunct2,
      rule_format, OF hyp, unfolded Let_def]
  have ms: "atLocal 0 19786 10 0 + int k * SLOT_MS = atLocal 0 19786 (10 + int k) 0" for k
    by (simp add: atLocal_def SLOT_MS_def TIME_SLOT_DURATION_def MS_PER_HOUR_def MS_PER_MINUTE_def)
  have opn: "hasBusinessHours (dayOfWeek 19786)"
    using mon by (simp add: hasBusinessHours_def)
  have gen: "getAvailableTimeSlots 0 [] 19786 ''111'' =
      [atLocal 0 19786 10 0, atLocal 0 19786 11 0, atLocal 0 19786 12 0, atLocal 0 19786 13 0,
       atLocal 0 19786 14 0, atLocal 0 19786 15 0, atLocal 0 19786 16 0, atLocal 0 19786 17 0,
       atLocal 0 19786 18 0, atLocal 0 19786 19 0, atLocal 0 19786 20 0]"
    unfolding getAvailableTimeSlots_progression [OF opn] ms upt_0_11 by simp
  from opened have flt: "getAvailableTimeSlots 0 [?b] 19786 ''111''
      = filter (\<lambda>t. isTimeSlotAvailable 0 [?b] t ''111'') (getAvailableTimeSlots 0 [] 19786 ''111'')"
    by blast
  have res: "getAvailableTimeSlots 0 [?b] 19786 ''111''
      = [atLocal 0 19786 10 0, atLocal 0 19786 11 0, atLocal 0 19786 12 0, atLocal 0 19786 13 0,
         atLocal 0 19786 15 0, atLocal 0 19786 16 0, atLocal 0 19786 17 0, atLocal 0 19786 18 0,
         atLocal 0 19786 19 0, atLocal 0 19786 20 0]"
    unfolding flt gen
    by (simp add: atLocal_def dateOf_def MS_PER_DAY_def MS_PER_HOUR_def MS_PER_MINUTE_def)
  from opened have hd: "hd (getAvailableTimeSlots 0 [] 19786 ''111'') = atLocal 0 19786 10 0"
    and before: "\<forall>t \<in> set (getAvailableTimeSlots 0 [] 19786 ''111''). t < atLocal 0 19786 21 0"
    and nonempty: "getAvailableTimeSlots 0 [] 19786 ''111'' \<noteq> []"
    by blast+
  from before nonempty have lst: "last (getAvailableTimeSlots 0 [] 19786 ''111'') < atLocal 0 19786 21 0"
    using last_in_set by blast
  from sun closed mon hd lst res show ?thesis by blast
qed

section \<open>Properties of the reminder scheduler\<close>

lemma startOfDay_eq: "startOfDay tz t = dateOf tz t * MS_PER_DAY - tz"
proof -
  have "(t + tz) - (t + tz) mod MS_PER_DAY = (t + tz) div MS_PER_DAY * MS_PER_DAY"
    by (rule minus_mod_eq_div_mult)
  then show ?thesis
    unfolding startOfDay_def dateOf_def by linarith
qed

lemma truncDiv_mult:
  assumes "0 < b"
  shows "truncDiv (k * b) b = k"
proof -
  have "\<bar>k * b\<bar> div b = \<bar>k\<bar>"
    using assms by (simp add: abs_mult)
  moreover have "sgn (k * b) = sgn k"
    using assms by (simp add: sgn_mult)
  ultimately show ?thesis
    by (simp add: truncDiv_def mult_sgn_abs)
qed

lemma daysUntilAppointment_eq:
  "daysUntilAppointment tz now a = dateOf tz (appointmentTime a) - dateOf tz now"
proof -
  have "startOfDay tz (appointmentTime a) - startOfDay tz now
          = (dateOf tz (appointmentTime a) - dateOf tz now) * MS_PER_DAY"
    by (simp add: startOfDay_eq algebra_simps)
  then have "daysUntilAppointment tz now a
          = truncDiv ((dateOf tz (appointmentTime a) - dateOf tz now) * MS_PER_DAY) MS_PER_DAY"
    unfolding daysUntilAppointment_def diffDays_def by (simp only:)
  also have "\<dots> = dateOf tz (appointmentTime a) - dateOf tz now"
    by (rule truncDiv_mult) (simp add: MS_PER_DAY_def)
  finally show ?thesis .
qed

lemma hourOf_atLocal:
  assumes "0 \<le> h" "h < 24" "0 \<le> m" "m < 60"
  shows "hourOf tz (atLocal tz d h m) = h"
proof -
  let ?r = "h * 3600000 + m * 60000"
  have r: "0 \<le> ?r" "?r < 86400000" using assms by auto
  have "(?r + d * 86400000) mod 86400000 = ?r mod 86400000"
    by (rule mod_mult_self1)
  also have "\<dots> = ?r"
    using r by (rule mod_pos_pos_trivial)
  finally have a: "(?r + d * 86400000) mod 86400000 = ?r" .
  have "0 \<le> m * 60000" "m * 60000 < 3600000" using assms by auto
  then have "(m * 60000 + h * 3600000) div 3600000 = h"
    by (simp add: div_pos_pos_trivial)
  then have b: "?r div 3600000 = h" by (simp only: add.commute)
  have "atLocal tz d h m + tz = ?r + d * 86400000"
    by (simp add: atLocal_def MS_PER_DAY_def MS_PER_HOUR_def MS_PER_MINUTE_def)
  then show ?thesis
    unfolding hourOf_def MS_PER_DAY_def MS_PER_HOUR_def by (simp only: a b)
qed

lemma minuteOf_atLocal:
  assumes "0 \<le> m" "m < 60"
  shows "minuteOf tz (atLocal tz d h m) = m"
proof -
  have e: "atLocal tz d h m + tz = m * 60000 + (d * 24 + h) * 3600000"
    by (simp add: atLocal_def MS_PER_DAY_def MS_PER_HOUR_def MS_PER_MINUTE_def algebra_simps)
  have "(m * 60000 + (d * 24 + h) * 3600000) mod 3600000 = (m * 60000) mod 3600000"
    by (rule mod_mult_self1)
  also have "\<dots> = m * 60000"
    using assms by (intro mod_pos_pos_trivial) auto
  finally have a: "(atLocal tz d h m + tz) mod 3600000 = m * 60000"
    by (simp only: e)
  show ?thesis
    unfolding minuteOf_def MS_PER_HOUR_def MS_PER_MINUTE_def by (simp add: a)
qed

lemma set_reminderTick:
  "set (reminderTick tz connected now appts)
     = (if connected then (\<Union>a \<in> set appts. set (tickAppointment tz now a)) else {})"
  by (auto simp: reminderTick_def)

lemma Countdown_in_tickAppointment:
  "Countdown a' n \<in> set (tickAppointment tz now a)
     \<longleftrightarrow> a' = a \<and> n = daysUntilAppointment tz now a \<and> countdownDue tz now a"
  by (auto simp: tickAppointment_def)

text \<open>
  C8.  The countdown branch of a tick is entered for an appointment exactly when the
  local time of day is 11:30 and the local date of the appointment is from 1 to 7 days
  after today's; the reminder then carries that number of days, and a connected client
  sends it.  At 11:30 an appointment three days ahead has exactly one countdown
  reminder, for 3 days; at 11:31 it has none.
\<close>

theorem countdown_reminder_rule:
  "(countdownDue tz now a \<longleftrightarrow>
      hourOf tz now = 11 \<and> minuteOf tz now = 30
      \<and> 1 \<le> dateOf tz (appointmentTime a) - dateOf tz now
      \<and> dateOf tz (appointmentTime a) - dateOf tz now \<le> 7)
   \<and> (Countdown a' n \<in> set (reminderTick tz True now appts) \<longleftrightarrow>
        a' \<in> set appts \<and> n = dateOf tz (appointmentTime a') - dateOf tz now
        \<and> hourOf tz now = 11 \<and> minuteOf tz now = 30 \<and> 1 \<le> n \<and> n \<le> 7)
   \<and> (dateOf tz (appointmentTime a) = d + 3 \<longrightarrow>
        filter (\<lambda>r. r \<noteq> FiveHour a) (tickAppointment tz (atLocal tz d 11 30) a) = [Countdown a 3]
        \<and> filter (\<lambda>r. r \<noteq> FiveHour a) (tickAppointment tz (atLocal tz d 11 31) a) = [])"
proof -
  have due: "countdownDue tz now a \<longleftrightarrow>
      hourOf tz now = 11 \<and> minuteOf tz now = 30
      \<and> 1 \<le> dateOf tz (appointmentTime a) - dateOf tz now
      \<and> dateOf tz (appointmentTime a) - dateOf tz now \<le> 7" for now a
    by (auto simp: countdownDue_def daysUntilAppointment_eq)
  have tick: "Countdown a' n \<in> set (reminderTick tz True now appts) \<longleftrightarrow>
        a' \<in> set appts \<and> n = dateOf tz (appointmentTime a') - dateOf tz now
        \<and> hourOf tz now = 11 \<and> minuteOf tz now = 30 \<and> 1 \<le> n \<and> n \<le> 7"
    by (auto simp: set_reminderTick Countdown_in_tickAppointment due daysUntilAppointment_eq)
  have ex: "dateOf tz (appointmentTime a) = d + 3 \<longrightarrow>
        filter (\<lambda>r. r \<noteq> FiveHour a) (tickAppointment tz (atLocal tz d 11 30) a) = [Countdown a 3]
        \<and> filter (\<lambda>r. r \<noteq> FiveHour a) (tickAppointment tz (atLocal tz d 11 31) a) = []"
    by (simp add: tickAppointment_def due daysUntilAppointment_eq dateOf_atLocal hourOf_atLocal
        minuteOf_atLocal)
  from due tick ex show ?thesis by blast
qed

text \<open>
  With the clock 5 h 30 min east of UTC: a tick at 11:30 on day 19786 for an appointment
  at 16:00 on day 19789, and the tick one minute later.
\<close>

theorem countdown_reminder_rule_witness:
  "dateOf 19800000 (atLocal 19800000 19789 16 0) = 19786 + 3
   \<and> reminderTick 19800000 True (atLocal 19800000 19786 11 30)
        [\<lparr>name = ''A'', phone = ''111'', appointmentTime = atLocal 19800000 19789 16 0,
          isFromUpload = True, isRescheduled = False, isExisting = False\<rparr>]
      = [Countdown \<lparr>name = ''A'', phone = ''111'', appointmentTime = atLocal 19800000 19789 16 0,
          isFromUpload = True, isRescheduled = False, isExisting = False\<rparr> 3]
   \<and> reminderTick 19800000 True (atLocal 19800000 19786 11 31)
        [\<lparr>name = ''A'', phone = ''111'', appointmentTime = atLocal 19800000 19789 16 0,
          isFromUpload = True, isRescheduled = False, isExisting = False\<rparr>]
      = []"
proof -
  let ?a = "\<lparr>name = ''A'', phone = ''111'', appointmentTime = atLocal 19800000 19789 16 0,
          isFromUpload = True, isRescheduled = False, isExisting = False\<rparr>"
  have d: "dateOf 19800000 (appointmentTime ?a) = 19786 + 3"
    by (simp add: dateOf_atLocal)
  note T = countdown_reminder_rule [of 19800000 _ ?a _ _ _ 19786, THEN conjunct2, THEN conjunct2,
      rule_format, OF d]
  have five: "\<not> fiveHourDue 19800000 (atLocal 19800000 19786 11 30) ?a"
       "\<not> fiveHourDue 19800000 (atLocal 19800000 19786 11 31) ?a"
    by (simp_all add: fiveHourDue_def atLocal_def MS_PER_DAY_def MS_PER_HOUR_def MS_PER_MINUTE_def)
  have 1: "tickAppointment 19800000 (atLocal 19800000 19786 11 30) ?a = [Countdown ?a 3]"
    using T five(1) by (simp add: tickAppointment_def split: if_splits)
  have 2: "tickAppointment 19800000 (atLocal 19800000 19786 11 31) ?a = []"
    using T five(2) by (simp add: tickAppointment_def split: if_splits)
  from d 1 2 show ?thesis
    by (simp add: reminderTick_def)
qed

section \<open>Properties of the message handler\<close>

text \<open>
  C9.  A message from a phone that has no appointment in the store, or a message with
  media, gets no reply and leaves the whole state as it was: the store, every dialogue
  entry and the seen-phones set.
\<close>

theorem onMessage_ignored:
  "find (\<lambda>appt. phone appt = contactNumber msg) (appointmentData st) = None \<or> hasMedia msg
     \<Longrightarrow> onMessage tz now replyThrows st msg = (st, [])"
  by (auto simp: onMessage_def Let_def split: option.splits)

text \<open>
  A store with one appointment, of phone 111, in the middle of choosing a date: a
  message from 999 and a picture from 111 change nothing.
\<close>

theorem onMessage_ignored_witness:
  "find (\<lambda>appt. phone appt = contactNumber \<lparr>contactNumber = ''999'', body = ''reschedule'', hasMedia = False\<rparr>)
     (appointmentData \<lparr>appointmentData =
         [\<lparr>name = ''A'', phone = ''111'', appointmentTime = 1709560800000,
           isFromUpload = True, isRescheduled = False, isExisting = False\<rparr>],
       userReschedulingState = Map.empty, seenAppointments = {''111''}\<rparr>) = None
   \<and> onMessage 0 1709400000000 False
       \<lparr>appointmentData =
         [\<lparr>name = ''A'', phone = ''111'', appointmentTime = 1709560800000,
           isFromUpload = True, isRescheduled = False, isExisting = False\<rparr>],
        userReschedulingState = Map.empty, seenAppointments = {''111''}\<rparr>
       \<lparr>contactNumber = ''999'', body = ''reschedule'', hasMedia = False\<rparr>
     = (\<lparr>appointmentData =
         [\<lparr>name = ''A'', phone = ''111'', appointmentTime = 1709560800000,
           isFromUpload = True, isRescheduled = False, isExisting = False\<rparr>],
        userReschedulingState = Map.empty, seenAppointments = {''111''}\<rparr>, [])
   \<and> onMessage 0 1709400000000 False
       \<lparr>appointmentData =
         [\<lparr>name = ''A'', phone = ''111'', appointmentTime = 1709560800000,
           isFromUpload = True, isRescheduled = False, isExisting = False\<rparr>],
        userReschedulingState = Map.empty, seenAppointments = {''111''}\<rparr>
       \<lparr>contactNumber = ''111'', body = ''reschedule'', hasMedia = True\<rparr>
     = (\<lparr>appointmentData =
         [\<lparr>name = ''A'', phone = ''111'', appointmentTime = 1709560800000,
           isFromUpload = True, isRescheduled = False, isExisting = False\<rparr>],
        userReschedulingState = Map.empty, seenAppointments = {''111''}\<rparr>, [])"
proof -
  let ?st = "\<lparr>appointmentData =
         [\<lparr>name = ''A'', phone = ''111'', appointmentTime = 1709560800000,
           isFromUpload = True, isRescheduled = False, isExisting = False\<rparr>],
        userReschedulingState = Map.empty, seenAppointments = {''111''}\<rparr>"
  let ?m1 = "\<lparr>contactNumber = ''999'', body = ''reschedule'', hasMedia = False\<rparr>"
  let ?m2 = "\<lparr>contactNumber = ''111'', body = ''reschedule'', hasMedia = True\<rparr>"
  have h1: "find (\<lambda>appt. phone appt = contactNumber ?m1) (appointmentData ?st) = None"
    by simp
  have h2: "hasMedia ?m2" by simp
  from h1 onMessage_ignored [of ?m1 ?st 0 1709400000000 False, OF disjI1 [OF h1]]
    onMessage_ignored [of ?m2 ?st 0 1709400000000 False, OF disjI2 [OF h2]]
  show ?thesis by blast
qed

section \<open>Properties of the time expression parser\<close>

lemma findSlot_eq_find:
  "findSlot tz slots h m = find (\<lambda>t. hourOf tz t = h \<and> minuteOf tz t = m) slots"
  by (induction slots) auto

lemma parseTime_is24HourFormat:
  "parseTime s = Some p \<Longrightarrow> is24HourFormat p = (matchedPeriod p = None \<and> matchedHour p > 12)"
  by (auto simp: parseTime_def Let_def split: option.splits if_splits)

lemma exactMatch_ambiguous:
  assumes "is24HourFormat p = False" "matchedPeriod p = None" "1 \<le> matchedHour p" "matchedHour p \<le> 12"
  shows "exactMatch tz p slots =
     (case find (\<lambda>t. hourOf tz t = (if matchedHour p = 12 then 12 else matchedHour p)
                      \<and> minuteOf tz t = matchedMinute p) slots of
        Some t \<Rightarrow> Some t
      | None \<Rightarrow> find (\<lambda>t. hourOf tz t = (if matchedHour p = 12 then 0 else matchedHour p + 12)
                      \<and> minuteOf tz t = matchedMinute p) slots)"
  using assms
  by (auto simp: exactMatch_def candidateHours_def findSlot_eq_find split: option.splits)

text \<open>
  C1, as the code has it.  For a text with no meridiem whose hour is 1 to 12 the
  candidate hours are tried in the order they are listed, the morning hour before the
  afternoon hour and noon before midnight, and the offered slots are scanned in list
  order for each candidate in turn.  So the slot selected is the first offered slot
  at the first candidate hour when there is one, and otherwise the first offered slot
  at the second candidate hour when there is one.
\<close>

theorem selectSlot_ambiguous_hour:
  assumes "parseTime (normalizeTime messageContent) = Some p"
    and "matchedPeriod p = None"
    and "1 \<le> matchedHour p" and "matchedHour p \<le> 12"
  shows "let m = matchedMinute p;
             firstHour = (if matchedHour p = 12 then 12 else matchedHour p);
             secondHour = (if matchedHour p = 12 then 0 else matchedHour p + 12);
             atFirst = find (\<lambda>t. hourOf tz t = firstHour \<and> minuteOf tz t = m) slots;
             atSecond = find (\<lambda>t. hourOf tz t = secondHour \<and> minuteOf tz t = m) slots
         in (\<forall>t. atFirst = Some t \<longrightarrow> selectSlot tz messageContent slots = Selected t)
          \<and> (\<forall>t. atFirst = None \<and> atSecond = Some t \<longrightarrow>
                 selectSlot tz messageContent slots = Selected t)"
proof -
  have f: "is24HourFormat p = False"
    using parseTime_is24HourFormat [OF assms(1)] assms(4) by simp
  show ?thesis
    unfolding Let_def selectSlot_def
    by (auto simp: assms(1) exactMatch_ambiguous [OF f assms(2-4)])
qed

text \<open>
  The text \<open>6\<close> against the offered slots 18:00 and 06:00, in this order and in the other,
  and against 18:00 alone.
\<close>

theorem selectSlot_ambiguous_hour_witness:
  "parseTime (normalizeTime ''6'')
     = Some \<lparr>matchedHour = 6, matchedMinute = 0, matchedPeriod = None, is24HourFormat = False\<rparr>
   \<and> selectSlot 0 ''6'' [atLocal 0 19786 18 0, atLocal 0 19786 6 0] = Selected (atLocal 0 19786 6 0)
   \<and> selectSlot 0 ''6'' [atLocal 0 19786 6 0, atLocal 0 19786 18 0] = Selected (atLocal 0 19786 6 0)
   \<and> selectSlot 0 ''6'' [atLocal 0 19786 18 0] = Selected (atLocal 0 19786 18 0)"
proof -
  let ?p = "\<lparr>matchedHour = 6, matchedMinute = 0, matchedPeriod = None, is24HourFormat = False\<rparr>"
  have p: "parseTime (normalizeTime ''6'') = Some ?p"
    by code_simp
  have h: "hourOf 0 (atLocal 0 19786 18 0) = 18" "hourOf 0 (atLocal 0 19786 6 0) = 6"
    "minuteOf 0 (atLocal 0 19786 18 0) = 0" "minuteOf 0 (atLocal 0 19786 6 0) = 0"
    by (simp_all add: hourOf_atLocal minuteOf_atLocal)
  note T = selectSlot_ambiguous_hour [OF p, unfolded Let_def, simplified]
  have 1: "selectSlot 0 ''6'' [atLocal 0 19786 18 0, atLocal 0 19786 6 0] = Selected (atLocal 0 19786 6 0)"
    using T [of 0 "[atLocal 0 19786 18 0, atLocal 0 19786 6 0]"] by (simp add: h)
  have 2: "selectSlot 0 ''6'' [atLocal 0 19786 6 0, atLocal 0 19786 18 0] = Selected (atLocal 0 19786 6 0)"
    using T [of 0 "[atLocal 0 19786 6 0, atLocal 0 19786 18 0]"] by (simp add: h)
  have 3: "selectSlot 0 ''6'' [atLocal 0 19786 18 0] = Selected (atLocal 0 19786 18 0)"
    using T [of 0 "[atLocal 0 19786 18 0]"] by (simp add: h)
  from p 1 2 3 show ?thesis by blast
qed

text \<open>
  C1 as it is stated fails: with 18:00 offered before 06:00 the text \<open>6\<close> selects 06:00,
  the slot of the candidate listed first, not the slot offered first.
\<close>

theorem selectSlot_slot_order_counterexample:
  "selectSlot 0 ''6'' [atLocal 0 19786 18 0, atLocal 0 19786 6 0] \<noteq> Selected (atLocal 0 19786 18 0)
   \<and> hourOf 0 (atLocal 0 19786 18 0) = 18 \<and> minuteOf 0 (atLocal 0 19786 18 0) = 0
   \<and> hourOf 0 (atLocal 0 19786 6 0) = 6 \<and> minuteOf 0 (atLocal 0 19786 6 0) = 0"
  by code_simp

section \<open>Properties of the date selection\<close>

lemma digitOf_10: "digitOf 10 c = (if isDigit c then Some (of_char c - 48) else None)"
  by (auto simp: digitOf_def isDigit_def Let_def)

lemma isDigit_not_space: "isDigit c \<Longrightarrow> \<not> isSpace c"
  by (auto simp: isDigit_def isSpace_def)

lemma isDigit_not_sign: "isDigit c \<Longrightarrow> c \<noteq> CHR ''-'' \<and> c \<noteq> CHR ''+'' \<and> c \<noteq> CHR ''x'' \<and> c \<noteq> CHR ''X''"
  by (auto simp: isDigit_def)

lemma digitsValue_prefix:
  assumes "\<forall>c \<in> set ds. isDigit c" "rest = [] \<or> \<not> isDigit (hd rest)"
  shows "digitsValue 10 (ds @ rest) acc = digitsValue 10 ds acc"
  using assms
proof (induction ds arbitrary: acc)
  case Nil
  then show ?case by (cases rest) (auto simp: digitOf_10)
next
  case (Cons c cs)
  then show ?case by (simp add: digitOf_10)
qed

text \<open>
  The prefix reading of \<^verbatim>\<open>parseInt\<close>: a text that begins with decimal digits, followed by
  nothing or by a character that is not a digit, is read as the number the digits
  form, unless the digits are a single \<open>0\<close> followed by \<open>x\<close>.
\<close>

lemma jsParseInt_prefix:
  assumes ds: "ds \<noteq> []" "\<forall>c \<in> set ds. isDigit c"
    and rest: "rest = [] \<or> \<not> isDigit (hd rest)"
    and nothex: "take 2 (ds @ rest) \<noteq> ''0x''" "take 2 (ds @ rest) \<noteq> ''0X''"
  shows "jsParseInt (ds @ rest) = Some (digitsValue 10 ds 0)"
proof -
  from ds obtain c cs where c: "ds = c # cs" "isDigit c"
    by (cases ds) auto
  have sp: "dropWhile isSpace (ds @ rest) = ds @ rest"
    using c by (simp add: isDigit_not_space)
  have sg: "take 1 (ds @ rest) \<noteq> ''-''" "take 1 (ds @ rest) \<noteq> ''+''"
    using c isDigit_not_sign [of c] by auto
  have tw: "takeWhile (\<lambda>c. digitOf 10 c \<noteq> None) (ds @ rest) \<noteq> []"
    using c by (simp add: digitOf_10)
  show ?thesis
    unfolding jsParseInt_def Let_def sp
    using sg nothex tw by (simp add: digitsValue_prefix [OF ds(2) rest])
qed

lemma not_hex_of_positive:
  assumes "\<forall>c \<in> set ds. isDigit c" "rest = [] \<or> \<not> isDigit (hd rest)" "1 \<le> digitsValue 10 ds 0"
  shows "take 2 (ds @ rest) \<noteq> ''0x'' \<and> take 2 (ds @ rest) \<noteq> ''0X''"
proof (cases ds)
  case Nil
  with assms(3) show ?thesis by simp
next
  case (Cons c cs)
  show ?thesis
  proof (cases cs)
    case Nil
    have "c \<noteq> CHR ''0''"
      using assms(3) Cons Nil by (auto simp: digitOf_10 isDigit_def)
    then show ?thesis using Cons Nil by (cases rest) auto
  next
    case (Cons c' cs')
    have "isDigit c'" using assms(1) \<open>ds = c # cs\<close> Cons by simp
    then show ?thesis
      using \<open>ds = c # cs\<close> Cons isDigit_not_sign [of c'] by auto
  qed
qed

text \<open>On a captured group of digits \<^verbatim>\<open>parseInt\<close> gives the value read in radix 10.\<close>

lemma jsParseInt_group:
  assumes "g \<noteq> []" "\<forall>c \<in> set g. isDigit c"
  shows "jsParseInt g = Some (groupValue g)"
proof -
  have "take 2 g \<noteq> ''0x''" "take 2 g \<noteq> ''0X''"
    using assms(2) isDigit_not_sign by (cases g; cases "tl g"; auto)+
  then show ?thesis
    using jsParseInt_prefix [OF assms, of "[]"] by (simp add: groupValue_def)
qed

lemma handleDateSelection_valid:
  assumes "userReschedulingState st ph = Some us" "availableDates us = Some dates"
    and "jsParseInt (trim messageContent) = Some k" "1 \<le> k" "k \<le> int (length dates)"
  shows "\<exists>us'. userReschedulingState (fst (handleDateSelection tz False st ph messageContent)) ph = Some us'
           \<and> selectedDate us' = Some (dates ! (nat k - 1))
           \<and> stage us' = (if getAvailableTimeSlots tz (appointmentData st) (dates ! (nat k - 1)) ph = []
                          then selecting_date else selecting_time)"
    and "snd (handleDateSelection tz False st ph messageContent) \<noteq> [InvalidSelection]"
proof -
  have n: "nat (k - 1) = nat k - 1" using assms(4) by simp
  show "\<exists>us'. userReschedulingState (fst (handleDateSelection tz False st ph messageContent)) ph = Some us'
           \<and> selectedDate us' = Some (dates ! (nat k - 1))
           \<and> stage us' = (if getAvailableTimeSlots tz (appointmentData st) (dates ! (nat k - 1)) ph = []
                          then selecting_date else selecting_time)"
    using assms by (simp add: handleDateSelection_def Let_def tryReply_def n)
  show "snd (handleDateSelection tz False st ph messageContent) \<noteq> [InvalidSelection]"
    using assms by (simp add: handleDateSelection_def Let_def tryReply_def n)
qed

lemma handleDateSelection_invalid_iff:
  assumes "userReschedulingState st ph = Some us" "availableDates us = Some dates"
  shows "snd (handleDateSelection tz False st ph messageContent) = [InvalidSelection]
          \<longleftrightarrow> (case jsParseInt (trim messageContent) of
                 None \<Rightarrow> True
               | Some k \<Rightarrow> k < 1 \<or> int (length dates) < k)"
  using assms
  by (auto simp: handleDateSelection_def Let_def tryReply_def split: option.splits)

lemma handleDateSelection_invalid_state:
  "snd (handleDateSelection tz False st ph messageContent) = [InvalidSelection]
     \<Longrightarrow> fst (handleDateSelection tz False st ph messageContent) = st"
  by (auto simp: handleDateSelection_def Let_def tryReply_def deleteState_def
      split: option.splits if_splits)

text \<open>
  C10.  In a dialogue that has a list of offered dates, when the reply is delivered: a
  text that, trimmed, begins with decimal digits forming \<open>k\<close> with \<open>1 \<le> k \<le> length dates\<close>,
  whatever follows them that is not a digit, selects the \<open>k\<close>-th offered date; the
  dialogue moves to choosing a time, or stays at choosing a date when that day has no
  free slot.  The text is rejected with the invalid-selection reply exactly when
  \<^verbatim>\<open>parseInt\<close> of the trimmed text is \<^verbatim>\<open>NaN\<close> or lies outside \<open>1..length dates\<close>, and
  then the state is unchanged.
\<close>

theorem handleDateSelection_integer_prefix:
  assumes "userReschedulingState st ph = Some us" and "availableDates us = Some dates"
  shows "(digits \<noteq> [] \<and> (\<forall>c \<in> set digits. isDigit c) \<and> (rest = [] \<or> \<not> isDigit (hd rest))
            \<and> trim messageContent = digits @ rest
            \<and> 1 \<le> digitsValue 10 digits 0 \<and> digitsValue 10 digits 0 \<le> int (length dates)
          \<longrightarrow> (\<exists>us'. userReschedulingState (fst (handleDateSelection tz False st ph messageContent)) ph
                        = Some us'
                   \<and> selectedDate us' = Some (dates ! (nat (digitsValue 10 digits 0) - 1))
                   \<and> stage us' =
                       (if getAvailableTimeSlots tz (appointmentData st)
                             (dates ! (nat (digitsValue 10 digits 0) - 1)) ph = []
                        then selecting_date else selecting_time))
              \<and> snd (handleDateSelection tz False st ph messageContent) \<noteq> [InvalidSelection])
       \<and> (snd (handleDateSelection tz False st ph messageContent) = [InvalidSelection]
            \<longleftrightarrow> (case jsParseInt (trim messageContent) of
                   None \<Rightarrow> True
                 | Some k \<Rightarrow> k < 1 \<or> int (length dates) < k))
       \<and> (snd (handleDateSelection tz False st ph messageContent) = [InvalidSelection]
            \<longrightarrow> fst (handleDateSelection tz False st ph messageContent) = st)"
proof (intro conjI impI)
  assume a: "digits \<noteq> [] \<and> (\<forall>c \<in> set digits. isDigit c) \<and> (rest = [] \<or> \<not> isDigit (hd rest))
            \<and> trim messageContent = digits @ rest
            \<and> 1 \<le> digitsValue 10 digits 0 \<and> digitsValue 10 digits 0 \<le> int (length dates)"
  then have nh: "take 2 (digits @ rest) \<noteq> ''0x'' \<and> take 2 (digits @ rest) \<noteq> ''0X''"
    by (intro not_hex_of_positive) auto
  have p: "jsParseInt (trim messageContent) = Some (digitsValue 10 digits 0)"
    using a nh jsParseInt_prefix [of digits rest] by simp
  from a have b: "1 \<le> digitsValue 10 digits 0" "digitsValue 10 digits 0 \<le> int (length dates)"
    by auto
  show "\<exists>us'. userReschedulingState (fst (handleDateSelection tz False st ph messageContent)) ph
                        = Some us'
                   \<and> selectedDate us' = Some (dates ! (nat (digitsValue 10 digits 0) - 1))
                   \<and> stage us' =
                       (if getAvailableTimeSlots tz (appointmentData st)
                             (dates ! (nat (digitsValue 10 digits 0) - 1)) ph = []
                        then selecting_date else selecting_time)"
    by (rule handleDateSelection_valid(1) [OF assms p b])
  show "snd (handleDateSelection tz False st ph messageContent) \<noteq> [InvalidSelection]"
    by (rule handleDateSelection_valid(2) [OF assms p b])
next
  show "snd (handleDateSelection tz False st ph messageContent) = [InvalidSelection]
            \<longleftrightarrow> (case jsParseInt (trim messageContent) of
                   None \<Rightarrow> True
                 | Some k \<Rightarrow> k < 1 \<or> int (length dates) < k)"
    by (rule handleDateSelection_invalid_iff [OF assms])
next
  assume "snd (handleDateSelection tz False st ph messageContent) = [InvalidSelection]"
  then show "fst (handleDateSelection tz False st ph messageContent) = st"
    by (rule handleDateSelection_invalid_state)
qed

text \<open>
  Three dates on offer: the text \<open>2abc\<close> selects the second, the text \<open>abc\<close> is rejected.
\<close>

theorem handleDateSelection_integer_prefix_witness:
  "trim ''2abc'' = ''2'' @ ''abc'' \<and> digitsValue 10 ''2'' 0 = 2
   \<and> (\<exists>us'. userReschedulingState (fst (handleDateSelection 0 False
          \<lparr>appointmentData =
             [\<lparr>name = ''A'', phone = ''111'', appointmentTime = 1709560800000,
               isFromUpload = True, isRescheduled = False, isExisting = False\<rparr>],
           userReschedulingState = [''111'' \<mapsto>
             \<lparr>currentAppointment =
                \<lparr>name = ''A'', phone = ''111'', appointmentTime = 1709560800000,
                  isFromUpload = True, isRescheduled = False, isExisting = False\<rparr>,
              availableDates = Some [19786, 19787, 19788], stage = selecting_date,
              selectedDate = None, availableTimeSlots = None\<rparr>],
           seenAppointments = {}\<rparr> ''111'' ''2abc'')) ''111'' = Some us'
        \<and> selectedDate us' = Some 19787)
   \<and> snd (handleDateSelection 0 False
          \<lparr>appointmentData =
             [\<lparr>name = ''A'', phone = ''111'', appointmentTime = 1709560800000,
               isFromUpload = True, isRescheduled = False, isExisting = False\<rparr>],
           userReschedulingState = [''111'' \<mapsto>
             \<lparr>currentAppointment =
                \<lparr>name = ''A'', phone = ''111'', appointmentTime = 1709560800000,
                  isFromUpload = True, isRescheduled = False, isExisting = False\<rparr>,
              availableDates = Some [19786, 19787, 19788], stage = selecting_date,
              selectedDate = None, availableTimeSlots = None\<rparr>],
           seenAppointments = {}\<rparr> ''111'' ''abc'') = [InvalidSelection]"
proof -
  let ?a = "\<lparr>name = ''A'', phone = ''111'', appointmentTime = 1709560800000,
               isFromUpload = True, isRescheduled = False, isExisting = False\<rparr>"
  let ?us = "\<lparr>currentAppointment = ?a,
              availableDates = Some [19786, 19787, 19788], stage = selecting_date,
              selectedDate = None, availableTimeSlots = None\<rparr>"
  let ?st = "\<lparr>appointmentData = [?a], userReschedulingState = [''111'' \<mapsto> ?us],
           seenAppointments = {}\<rparr>"
  have h1: "userReschedulingState ?st ''111'' = Some ?us" by simp
  have h2: "availableDates ?us = Some [19786, 19787, 19788]" by simp
  have t: "trim ''2abc'' = ''2'' @ ''abc''" by code_simp
  have v: "digitsValue 10 ''2'' 0 = 2" by code_simp
  have pre: "''2'' \<noteq> [] \<and> (\<forall>c \<in> set ''2''. isDigit c) \<and> (''abc'' = [] \<or> \<not> isDigit (hd ''abc''))
            \<and> trim ''2abc'' = ''2'' @ ''abc''
            \<and> 1 \<le> digitsValue 10 ''2'' 0
            \<and> digitsValue 10 ''2'' 0 \<le> int (length [19786, 19787, 19788 :: int])"
    using t v by (simp add: isDigit_def)
  note T = handleDateSelection_integer_prefix [OF h1 h2, of _ _ _ 0]
  from T [of "''2''" "''abc''" "''2abc''", THEN conjunct1, rule_format, OF pre]
  have sel: "\<exists>us'. userReschedulingState (fst (handleDateSelection 0 False ?st ''111'' ''2abc'')) ''111''
                 = Some us' \<and> selectedDate us' = Some 19787"
    by (simp only: v) auto
  have nan: "jsParseInt (trim ''abc'') = None" by code_simp
  from T [of "[]" "[]" "''abc''", THEN conjunct2, THEN conjunct1]
  have rej: "snd (handleDateSelection 0 False ?st ''111'' ''abc'') = [InvalidSelection]"
    by (simp only: nan) simp
  from t v sel rej show ?thesis by blast
qed

section \<open>Properties of the merge\<close>

text \<open>What the first loop of the merge keeps of one stored record.\<close>

lemma find_append_list:
  "find P (xs @ ys) = (case find P xs of Some x \<Rightarrow> Some x | None \<Rightarrow> find P ys)"
  by (induction xs) auto

lemma mergeExisting_merged:
  "mergedAppointments (mergeExisting new ex acc) =
     mergedAppointments acc @
     concat (map (\<lambda>e. case find (\<lambda>n. phone n = phone e) new of
                         Some n \<Rightarrow> if appointmentTime e \<noteq> appointmentTime n
                                   then [e\<lparr>isRescheduled := True\<rparr>] else []
                       | None \<Rightarrow> [e\<lparr>isExisting := True\<rparr>]) ex)"
  by (induction ex arbitrary: acc) (auto split: option.splits)

lemma mergeExisting_processed_mono:
  "x \<in> processedPhones acc \<Longrightarrow> x \<in> processedPhones (mergeExisting new ex acc)"
  by (induction ex arbitrary: acc) (auto split: option.splits)

lemma mergeExisting_processed:
  "e \<in> set ex \<Longrightarrow> find (\<lambda>n. phone n = phone e) new = Some n
     \<Longrightarrow> appointmentTime e \<noteq> appointmentTime n
     \<Longrightarrow> phone e \<in> processedPhones (mergeExisting new ex acc)"
proof (induction ex arbitrary: acc)
  case Nil
  then show ?case by simp
next
  case (Cons x ex)
  show ?case
  proof (cases "e = x")
    case True
    with Cons.prems show ?thesis
      by (auto intro!: mergeExisting_processed_mono)
  next
    case False
    with Cons.prems have "e \<in> set ex" by simp
    from Cons.IH [OF this Cons.prems(2,3)] show ?thesis by simp
  qed
qed

lemma mergeNew_merged:
  "\<exists>added. mergedAppointments (mergeNew seen new acc) = mergedAppointments acc @ added
           \<and> (\<forall>m \<in> set added. phone m \<notin> processedPhones acc)"
proof (induction new arbitrary: acc)
  case Nil
  then show ?case by simp
next
  case (Cons n new)
  show ?case
  proof (cases "phone n \<in> processedPhones acc")
    case True
    then show ?thesis using Cons [of acc] by simp
  next
    case False
    define acc1 where "acc1 = acc\<lparr>mergedAppointments := mergedAppointments acc @ [n],
                               processedPhones := insert (phone n) (processedPhones acc)\<rparr>"
    define acc2 where "acc2 = (if phone n \<notin> seen
             then acc1\<lparr>trulyNewAppointments := trulyNewAppointments acc1 @ [n],
                       newlySeenPhones := insert (phone n) (newlySeenPhones acc1)\<rparr>
             else acc1)"
    have step: "mergeNew seen (n # new) acc = mergeNew seen new acc2"
      using False by (simp add: acc1_def acc2_def Let_def)
    have m2: "mergedAppointments acc2 = mergedAppointments acc @ [n]"
      and p2: "processedPhones acc2 = insert (phone n) (processedPhones acc)"
      by (simp_all add: acc1_def acc2_def)
    from Cons [of acc2] obtain added where
      a: "mergedAppointments (mergeNew seen new acc2) = mergedAppointments acc2 @ added"
         "\<forall>m \<in> set added. phone m \<notin> processedPhones acc2"
      by blast
    have "mergedAppointments (mergeNew seen (n # new) acc) = mergedAppointments acc2 @ added"
      by (simp only: step a(1))
    then have "mergedAppointments (mergeNew seen (n # new) acc) = mergedAppointments acc @ (n # added)"
      by (simp only: m2) simp
    moreover have "\<forall>m \<in> set (n # added). phone m \<notin> processedPhones acc"
      using a(2) False by (simp add: p2)
    ultimately show ?thesis by blast
  qed
qed

lemma find_kept_existing:
  assumes "find (\<lambda>a. phone a = p) ex = Some e"
    and "find (\<lambda>n. phone n = p) new = Some n" and "appointmentTime e \<noteq> appointmentTime n"
  shows "find (\<lambda>a. phone a = p)
           (concat (map (\<lambda>e. case find (\<lambda>n. phone n = phone e) new of
                         Some n \<Rightarrow> if appointmentTime e \<noteq> appointmentTime n
                                   then [e\<lparr>isRescheduled := True\<rparr>] else []
                       | None \<Rightarrow> [e\<lparr>isExisting := True\<rparr>]) ex))
         = Some (e\<lparr>isRescheduled := True\<rparr>)"
  using assms
proof (induction ex)
  case Nil
  then show ?case by simp
next
  case (Cons x ex)
  show ?case
  proof (cases "phone x = p")
    case True
    with Cons.prems show ?thesis by simp
  next
    case False
    with Cons show ?thesis by (simp add: find_append_list split: option.splits)
  qed
qed

lemma kept_existing_times:
  "m \<in> set (concat (map (\<lambda>e. case find (\<lambda>n. phone n = phone e) new of
                         Some n \<Rightarrow> if appointmentTime e \<noteq> appointmentTime n
                                   then [e\<lparr>isRescheduled := True\<rparr>] else []
                       | None \<Rightarrow> [e\<lparr>isExisting := True\<rparr>]) ex))
   \<Longrightarrow> \<exists>e \<in> set ex. phone e = phone m \<and> appointmentTime m = appointmentTime e"
  by (induction ex) (auto split: option.splits if_splits)

lemma find_Some_in_set: "find P xs = Some x \<Longrightarrow> x \<in> set xs \<and> P x"
  by (induction xs) (auto split: if_splits)

text \<open>The merge on a stored record whose time differs from the imported one.\<close>

lemma smartMerge_keeps_stored:
  assumes e: "find (\<lambda>a. phone a = p) ex = Some e"
    and n: "find (\<lambda>n. phone n = p) new = Some n" and d: "appointmentTime e \<noteq> appointmentTime n"
  shows "find (\<lambda>a. phone a = p) (mergedAppointments (smartMerge seen ex new))
           = Some (e\<lparr>isRescheduled := True\<rparr>)"
    and "\<forall>m \<in> set (mergedAppointments (smartMerge seen ex new)). phone m = p \<longrightarrow>
           (\<exists>e' \<in> set ex. phone e' = p \<and> appointmentTime m = appointmentTime e')"
proof -
  let ?keep = "\<lambda>e. case find (\<lambda>n. phone n = phone e) new of
                         Some n \<Rightarrow> if appointmentTime e \<noteq> appointmentTime n
                                   then [e\<lparr>isRescheduled := True\<rparr>] else []
                       | None \<Rightarrow> [e\<lparr>isExisting := True\<rparr>]"
  let ?init = "\<lparr>mergedAppointments = [], processedPhones = {}, trulyNewAppointments = [],
           newlySeenPhones = seen\<rparr>"
  let ?acc = "mergeExisting new ex ?init"
  have kept: "mergedAppointments ?acc = concat (map ?keep ex)"
    by (simp add: mergeExisting_merged)
  from e have ein: "e \<in> set ex" "phone e = p"
    using find_Some_in_set [of "\<lambda>a. phone a = p" ex e] by auto
  have proc: "p \<in> processedPhones ?acc"
    using mergeExisting_processed [where e = e and ex = ex and new = new and n = n and acc = ?init]
      ein n d by simp
  obtain added where
    a: "mergedAppointments (mergeNew seen new ?acc) = mergedAppointments ?acc @ added"
       "\<forall>m \<in> set added. phone m \<notin> processedPhones ?acc"
    using mergeNew_merged [of seen new ?acc] by blast
  have all: "mergedAppointments (smartMerge seen ex new) = concat (map ?keep ex) @ added"
    unfolding smartMerge_def using a(1) kept by simp
  show "find (\<lambda>a. phone a = p) (mergedAppointments (smartMerge seen ex new))
           = Some (e\<lparr>isRescheduled := True\<rparr>)"
    unfolding all by (simp add: find_append_list find_kept_existing [OF e n d])
  show "\<forall>m \<in> set (mergedAppointments (smartMerge seen ex new)). phone m = p \<longrightarrow>
           (\<exists>e' \<in> set ex. phone e' = p \<and> appointmentTime m = appointmentTime e')"
  proof (intro ballI impI)
    fix m
    assume m: "m \<in> set (mergedAppointments (smartMerge seen ex new))" "phone m = p"
    then have "m \<in> set (concat (map ?keep ex)) \<or> m \<in> set added"
      unfolding all by simp
    moreover have "m \<notin> set added" using a(2) proc m(2) by blast
    ultimately have "m \<in> set (concat (map ?keep ex))" by blast
    from kept_existing_times [OF this] m(2)
    show "\<exists>e' \<in> set ex. phone e' = p \<and> appointmentTime m = appointmentTime e'" by auto
  qed
qed

lemma smartMerge_keeps_member:
  assumes "e \<in> set ex" "find (\<lambda>n. phone n = phone e) new = Some n"
    and "appointmentTime e \<noteq> appointmentTime n"
  shows "e\<lparr>isRescheduled := True\<rparr> \<in> set (mergedAppointments (smartMerge seen ex new))"
proof -
  let ?init = "\<lparr>mergedAppointments = [], processedPhones = {}, trulyNewAppointments = [],
           newlySeenPhones = seen\<rparr>"
  obtain added where
    a: "mergedAppointments (mergeNew seen new (mergeExisting new ex ?init))
          = mergedAppointments (mergeExisting new ex ?init) @ added"
    using mergeNew_merged [of seen new "mergeExisting new ex ?init"] by blast
  have "e\<lparr>isRescheduled := True\<rparr> \<in> set (mergedAppointments (mergeExisting new ex ?init))"
    unfolding mergeExisting_merged using assms by force
  then show ?thesis
    unfolding smartMerge_def a by simp
qed

lemma find_setAppointmentTime:
  "find (\<lambda>a. phone a = p) (setAppointmentTime p t xs)
     = map_option (\<lambda>a. a\<lparr>appointmentTime := t\<rparr>) (find (\<lambda>a. phone a = p) xs)"
  by (induction xs) auto

lemma handleTimeSelection_store:
  assumes "userReschedulingState st p = Some us" "availableTimeSlots us = Some slots"
    and "selectSlot tz messageContent slots = Selected t"
  shows "appointmentData (fst (handleTimeSelection tz replyThrows st p messageContent))
           = setAppointmentTime p t (appointmentData st)"
    and "seenAppointments (fst (handleTimeSelection tz replyThrows st p messageContent))
           = seenAppointments st"
    and "userReschedulingState (fst (handleTimeSelection tz replyThrows st p messageContent)) p = None"
  using assms by (simp_all add: handleTimeSelection_def Let_def tryReply_def deleteState_def)

text \<open>
  C2.  When the first stored record of a phone and the first imported row of that phone
  have different times, the merged store answers a lookup of the phone with the stored
  record (marked as rescheduled), and every record of that phone in the merged store
  has the time of a stored record of that phone: the imported row does not come in.
  Any stored record whose time differs from the first imported row of its phone is in
  the merged store, marked as rescheduled.  Hence a time selected in the dialogue survives the upload of a sheet whose row for
  that phone has another time, the old one for instance.
\<close>

theorem upload_keeps_rescheduled_time:
  "(find (\<lambda>a. phone a = p) (appointmentData st) = Some e
      \<and> find (\<lambda>n. phone n = p) newAppointments = Some n
      \<and> appointmentTime e \<noteq> appointmentTime n
    \<longrightarrow> find (\<lambda>a. phone a = p) (appointmentData (upload st newAppointments))
          = Some (e\<lparr>isRescheduled := True\<rparr>)
        \<and> (\<forall>m \<in> set (appointmentData (upload st newAppointments)). phone m = p \<longrightarrow>
             (\<exists>e' \<in> set (appointmentData st). phone e' = p \<and> appointmentTime m = appointmentTime e')))
   \<and> (x \<in> set (appointmentData st)
      \<and> find (\<lambda>n. phone n = phone x) newAppointments = Some y
      \<and> appointmentTime x \<noteq> appointmentTime y
    \<longrightarrow> x\<lparr>isRescheduled := True\<rparr> \<in> set (appointmentData (upload st newAppointments)))
   \<and> (userReschedulingState st p = Some us \<and> availableTimeSlots us = Some slots
      \<and> selectSlot tz messageContent slots = Selected t
      \<and> find (\<lambda>a. phone a = p) (appointmentData st) = Some a
      \<and> find (\<lambda>n. phone n = p) newAppointments = Some old
      \<and> appointmentTime old \<noteq> t
    \<longrightarrow> map_option appointmentTime
          (find (\<lambda>a. phone a = p)
             (appointmentData
                (upload (fst (handleTimeSelection tz replyThrows st p messageContent)) newAppointments)))
        = Some t)"
proof (intro conjI impI)
  assume h: "find (\<lambda>a. phone a = p) (appointmentData st) = Some e
      \<and> find (\<lambda>n. phone n = p) newAppointments = Some n
      \<and> appointmentTime e \<noteq> appointmentTime n"
  then have ne: "newAppointments \<noteq> []" by auto
  have up: "appointmentData (upload st newAppointments)
        = mergedAppointments (smartMerge (seenAppointments st) (appointmentData st) newAppointments)"
    using ne by (simp add: upload_def Let_def)
  from h show "find (\<lambda>a. phone a = p) (appointmentData (upload st newAppointments))
          = Some (e\<lparr>isRescheduled := True\<rparr>)"
    unfolding up by (intro smartMerge_keeps_stored(1)) auto
  from h show "\<forall>m \<in> set (appointmentData (upload st newAppointments)). phone m = p \<longrightarrow>
             (\<exists>e' \<in> set (appointmentData st). phone e' = p \<and> appointmentTime m = appointmentTime e')"
    unfolding up by (intro smartMerge_keeps_stored(2) [of p _ e _ n]) auto
next
  assume h: "x \<in> set (appointmentData st)
      \<and> find (\<lambda>n. phone n = phone x) newAppointments = Some y
      \<and> appointmentTime x \<noteq> appointmentTime y"
  then have ne: "newAppointments \<noteq> []" by auto
  have up: "appointmentData (upload st newAppointments)
        = mergedAppointments (smartMerge (seenAppointments st) (appointmentData st) newAppointments)"
    using ne by (simp add: upload_def Let_def)
  from h have m: "x \<in> set (appointmentData st)"
    "find (\<lambda>n. phone n = phone x) newAppointments = Some y"
    "appointmentTime x \<noteq> appointmentTime y"
    by auto
  show "x\<lparr>isRescheduled := True\<rparr> \<in> set (appointmentData (upload st newAppointments))"
    unfolding up by (rule smartMerge_keeps_member [OF m])
next
  assume h: "userReschedulingState st p = Some us \<and> availableTimeSlots us = Some slots
      \<and> selectSlot tz messageContent slots = Selected t
      \<and> find (\<lambda>a. phone a = p) (appointmentData st) = Some a
      \<and> find (\<lambda>n. phone n = p) newAppointments = Some old
      \<and> appointmentTime old \<noteq> t"
  let ?st1 = "fst (handleTimeSelection tz replyThrows st p messageContent)"
  have d1: "appointmentData ?st1 = setAppointmentTime p t (appointmentData st)"
    using h by (intro handleTimeSelection_store(1) [of st p us slots]) auto
  have f1: "find (\<lambda>a. phone a = p) (appointmentData ?st1) = Some (a\<lparr>appointmentTime := t\<rparr>)"
    using h by (simp add: d1 find_setAppointmentTime)
  from h have ne: "newAppointments \<noteq> []" by auto
  have up: "appointmentData (upload ?st1 newAppointments)
        = mergedAppointments (smartMerge (seenAppointments ?st1) (appointmentData ?st1) newAppointments)"
    using ne by (simp add: upload_def Let_def)
  have "find (\<lambda>a. phone a = p) (appointmentData (upload ?st1 newAppointments))
          = Some (a\<lparr>appointmentTime := t, isRescheduled := True\<rparr>)"
    unfolding up using h f1
    by (subst smartMerge_keeps_stored(1) [of p _ "a\<lparr>appointmentTime := t\<rparr>" _ old]) auto
  then show "map_option appointmentTime
          (find (\<lambda>a. phone a = p) (appointmentData (upload ?st1 newAppointments))) = Some t"
    by simp
qed

text \<open>
  The stored time is 2024-01-10 14:00 UTC (day 19732); the dialogue selects 15:00 on
  2024-01-12 (day 19734) from the text \<open>3 pm\<close>; the sheet uploaded next still has
  14:00 on 2024-01-10.  The appointment stays at 15:00 on 2024-01-12.
\<close>

theorem upload_keeps_rescheduled_time_witness:
  "selectSlot 0 ''3 pm'' [atLocal 0 19734 14 0, atLocal 0 19734 15 0] = Selected (atLocal 0 19734 15 0)
   \<and> map_option appointmentTime
        (find (\<lambda>a. phone a = ''111'')
           (appointmentData
              (upload
                 (fst (handleTimeSelection 0 False
                    \<lparr>appointmentData =
                       [\<lparr>name = ''A'', phone = ''111'', appointmentTime = atLocal 0 19732 14 0,
                         isFromUpload = True, isRescheduled = False, isExisting = False\<rparr>],
                     userReschedulingState = [''111'' \<mapsto>
                       \<lparr>currentAppointment =
                          \<lparr>name = ''A'', phone = ''111'', appointmentTime = atLocal 0 19732 14 0,
                            isFromUpload = True, isRescheduled = False, isExisting = False\<rparr>,
                        availableDates = Some [19734], stage = selecting_time,
                        selectedDate = Some 19734,
                        availableTimeSlots = Some [atLocal 0 19734 14 0, atLocal 0 19734 15 0]\<rparr>],
                     seenAppointments = {''111''}\<rparr> ''111'' ''3 pm''))
                 [\<lparr>name = ''A'', phone = ''111'', appointmentTime = atLocal 0 19732 14 0,
                   isFromUpload = True, isRescheduled = False, isExisting = False\<rparr>])))
      = Some (atLocal 0 19734 15 0)
   \<and> find (\<lambda>a. phone a = ''111'')
        (appointmentData
           (upload
              \<lparr>appointmentData =
                 [\<lparr>name = ''A'', phone = ''111'', appointmentTime = atLocal 0 19734 15 0,
                   isFromUpload = True, isRescheduled = False, isExisting = False\<rparr>],
               userReschedulingState = Map.empty, seenAppointments = {''111''}\<rparr>
              [\<lparr>name = ''A'', phone = ''111'', appointmentTime = atLocal 0 19732 14 0,
                isFromUpload = True, isRescheduled = False, isExisting = False\<rparr>]))
      = Some \<lparr>name = ''A'', phone = ''111'', appointmentTime = atLocal 0 19734 15 0,
               isFromUpload = True, isRescheduled = True, isExisting = False\<rparr>"
proof -
  let ?old = "\<lparr>name = ''A'', phone = ''111'', appointmentTime = atLocal 0 19732 14 0,
                isFromUpload = True, isRescheduled = False, isExisting = False\<rparr>"
  let ?new = "\<lparr>name = ''A'', phone = ''111'', appointmentTime = atLocal 0 19734 15 0,
                isFromUpload = True, isRescheduled = False, isExisting = False\<rparr>"
  let ?slots = "[atLocal 0 19734 14 0, atLocal 0 19734 15 0]"
  let ?us = "\<lparr>currentAppointment = ?old, availableDates = Some [19734], stage = selecting_time,
              selectedDate = Some 19734, availableTimeSlots = Some ?slots\<rparr>"
  let ?st = "\<lparr>appointmentData = [?old], userReschedulingState = [''111'' \<mapsto> ?us],
              seenAppointments = {''111''}\<rparr>"
  let ?st2 = "\<lparr>appointmentData = [?new], userReschedulingState = Map.empty,
              seenAppointments = {''111''}\<rparr>"
  have sel: "selectSlot 0 ''3 pm'' ?slots = Selected (atLocal 0 19734 15 0)"
    by code_simp
  have ne: "atLocal 0 19732 14 0 \<noteq> atLocal 0 19734 15 0"
    by (simp add: atLocal_def MS_PER_DAY_def MS_PER_HOUR_def MS_PER_MINUTE_def)
  have hyp2: "userReschedulingState ?st ''111'' = Some ?us \<and> availableTimeSlots ?us = Some ?slots
      \<and> selectSlot 0 ''3 pm'' ?slots = Selected (atLocal 0 19734 15 0)
      \<and> find (\<lambda>a. phone a = ''111'') (appointmentData ?st) = Some ?old
      \<and> find (\<lambda>n. phone n = ''111'') [?old] = Some ?old
      \<and> appointmentTime ?old \<noteq> atLocal 0 19734 15 0"
    using sel ne by simp
  have hyp1: "find (\<lambda>a. phone a = ''111'') (appointmentData ?st2) = Some ?new
      \<and> find (\<lambda>n. phone n = ''111'') [?old] = Some ?old
      \<and> appointmentTime ?new \<noteq> appointmentTime ?old"
    using ne by simp
  note T = upload_keeps_rescheduled_time
  from T [where p = "''111''" and st = ?st and us = ?us and slots = ?slots and tz = 0
      and messageContent = "''3 pm''" and t = "atLocal 0 19734 15 0" and a = ?old
      and newAppointments = "[?old]" and old = ?old and replyThrows = False,
      THEN conjunct2, THEN conjunct2, rule_format, OF hyp2]
  have 2: "map_option appointmentTime
        (find (\<lambda>a. phone a = ''111'')
           (appointmentData (upload (fst (handleTimeSelection 0 False ?st ''111'' ''3 pm'')) [?old])))
      = Some (atLocal 0 19734 15 0)" .
  from T [where p = "''111''" and st = ?st2 and e = ?new and n = ?old and newAppointments = "[?old]",
      THEN conjunct1, rule_format, OF hyp1, THEN conjunct1]
  have 1: "find (\<lambda>a. phone a = ''111'') (appointmentData (upload ?st2 [?old]))
      = Some \<lparr>name = ''A'', phone = ''111'', appointmentTime = atLocal 0 19734 15 0,
               isFromUpload = True, isRescheduled = True, isExisting = False\<rparr>"
    by simp
  from sel 2 1 show ?thesis by blast
qed

section \<open>Where the dialogue state is not cleared\<close>

text \<open>
  C3 on the code.  Phone 111 has an appointment and no dialogue.  It sends
  \<open>reschedule\<close>, and the transport rejects the reply that lists the dates: the apology
  is sent and the entry written just before stays, at the stage of choosing a date.
  It sends \<open>cancel\<close> instead, and the transport rejects the retention message: the
  apology is sent and the entry stays, at the stage of confirming the cancellation.
  From that stage it sends \<open>reschedule\<close> and the list of dates is rejected again: the
  apology is sent and the entry is now at the stage of choosing a date.
  The \<^verbatim>\<open>catch\<close> blocks of \<^verbatim>\<open>handleDateSelection\<close>, \<^verbatim>\<open>handleTimeSelection\<close> and
  \<^verbatim>\<open>processCancellation\<close> delete the entry; these two do not.
\<close>

theorem initiation_fault_leaves_state:
  "snd (onMessage 0 (atLocal 0 19786 9 0) True
          \<lparr>appointmentData =
             [\<lparr>name = ''A'', phone = ''111'', appointmentTime = atLocal 0 19788 14 0,
               isFromUpload = True, isRescheduled = False, isExisting = False\<rparr>],
           userReschedulingState = Map.empty, seenAppointments = {''111''}\<rparr>
          \<lparr>contactNumber = ''111'', body = ''reschedule'', hasMedia = False\<rparr>)
     = [RescheduleRequestError]
   \<and> map_option stage
        (userReschedulingState
           (fst (onMessage 0 (atLocal 0 19786 9 0) True
              \<lparr>appointmentData =
                 [\<lparr>name = ''A'', phone = ''111'', appointmentTime = atLocal 0 19788 14 0,
                   isFromUpload = True, isRescheduled = False, isExisting = False\<rparr>],
               userReschedulingState = Map.empty, seenAppointments = {''111''}\<rparr>
              \<lparr>contactNumber = ''111'', body = ''reschedule'', hasMedia = False\<rparr>))
           ''111'')
     = Some selecting_date
   \<and> snd (onMessage 0 (atLocal 0 19786 9 0) True
          \<lparr>appointmentData =
             [\<lparr>name = ''A'', phone = ''111'', appointmentTime = atLocal 0 19788 14 0,
               isFromUpload = True, isRescheduled = False, isExisting = False\<rparr>],
           userReschedulingState = Map.empty, seenAppointments = {''111''}\<rparr>
          \<lparr>contactNumber = ''111'', body = ''cancel'', hasMedia = False\<rparr>)
     = [CancellationRequestError]
   \<and> map_option stage
        (userReschedulingState
           (fst (onMessage 0 (atLocal 0 19786 9 0) True
              \<lparr>appointmentData =
                 [\<lparr>name = ''A'', phone = ''111'', appointmentTime = atLocal 0 19788 14 0,
                   isFromUpload = True, isRescheduled = False, isExisting = False\<rparr>],
               userReschedulingState = Map.empty, seenAppointments = {''111''}\<rparr>
              \<lparr>contactNumber = ''111'', body = ''cancel'', hasMedia = False\<rparr>))
           ''111'')
     = Some confirming_cancellation
   \<and> snd (onMessage 0 (atLocal 0 19786 9 0) True
          \<lparr>appointmentData =
             [\<lparr>name = ''A'', phone = ''111'', appointmentTime = atLocal 0 19788 14 0,
               isFromUpload = True, isRescheduled = False, isExisting = False\<rparr>],
           userReschedulingState = [''111'' \<mapsto>
             \<lparr>currentAppointment =
                \<lparr>name = ''A'', phone = ''111'', appointmentTime = atLocal 0 19788 14 0,
                  isFromUpload = True, isRescheduled = False, isExisting = False\<rparr>,
              availableDates = None, stage = confirming_cancellation,
              selectedDate = None, availableTimeSlots = None\<rparr>],
           seenAppointments = {''111''}\<rparr>
          \<lparr>contactNumber = ''111'', body = ''reschedule'', hasMedia = False\<rparr>)
     = [RescheduleRequestError]
   \<and> map_option stage
        (userReschedulingState
           (fst (onMessage 0 (atLocal 0 19786 9 0) True
              \<lparr>appointmentData =
                 [\<lparr>name = ''A'', phone = ''111'', appointmentTime = atLocal 0 19788 14 0,
                   isFromUpload = True, isRescheduled = False, isExisting = False\<rparr>],
               userReschedulingState = [''111'' \<mapsto>
                 \<lparr>currentAppointment =
                    \<lparr>name = ''A'', phone = ''111'', appointmentTime = atLocal 0 19788 14 0,
                      isFromUpload = True, isRescheduled = False, isExisting = False\<rparr>,
                  availableDates = None, stage = confirming_cancellation,
                  selectedDate = None, availableTimeSlots = None\<rparr>],
               seenAppointments = {''111''}\<rparr>
              \<lparr>contactNumber = ''111'', body = ''reschedule'', hasMedia = False\<rparr>))
           ''111'')
     = Some selecting_date"
proof -
  let ?a = "\<lparr>name = ''A'', phone = ''111'', appointmentTime = atLocal 0 19788 14 0,
               isFromUpload = True, isRescheduled = False, isExisting = False\<rparr>"
  let ?st = "\<lparr>appointmentData = [?a], userReschedulingState = Map.empty,
               seenAppointments = {''111''}\<rparr>"
  let ?us = "\<lparr>currentAppointment = ?a, availableDates = None, stage = confirming_cancellation,
              selectedDate = None, availableTimeSlots = None\<rparr>"
  let ?sc = "\<lparr>appointmentData = [?a], userReschedulingState = [''111'' \<mapsto> ?us],
               seenAppointments = {''111''}\<rparr>"
  have lc: "toLowerCase ''reschedule'' = ''reschedule''" "toLowerCase ''cancel'' = ''cancel''"
    by code_simp+
  have inc: "\<not> str_includes ''reschedule'' ''cancel''" "\<not> str_includes ''reschedule'' ''cancellation''"
    "str_includes ''reschedule'' ''reschedule''" "str_includes ''cancel'' ''cancel''"
    "\<not> str_includes ''reschedule'' ''confirm cancel''" "\<not> str_includes ''reschedule'' ''confirm''"
    by code_simp+
  have dates: "getAvailableDates 0 (atLocal 0 19786 9 0) 7 \<noteq> []"
    by (simp add: getAvailableDates_eq dateOf_atLocal upto_1_7 hasBusinessHours_iff dayOfWeek_def)
  have r: "onMessage 0 (atLocal 0 19786 9 0) True ?st
             \<lparr>contactNumber = ''111'', body = ''reschedule'', hasMedia = False\<rparr>
           = handleRescheduleRequest 0 (atLocal 0 19786 9 0) True ?st ''111''"
    by (simp add: onMessage_def Let_def lc inc)
  have c: "onMessage 0 (atLocal 0 19786 9 0) True ?st
             \<lparr>contactNumber = ''111'', body = ''cancel'', hasMedia = False\<rparr>
           = handleCancellationRequest True ?st ''111''"
    by (simp add: onMessage_def Let_def lc inc)
  have rc: "onMessage 0 (atLocal 0 19786 9 0) True ?sc
             \<lparr>contactNumber = ''111'', body = ''reschedule'', hasMedia = False\<rparr>
           = handleRescheduleRequest 0 (atLocal 0 19786 9 0) True ?sc ''111''"
    by (simp add: onMessage_def Let_def lc inc)
  show ?thesis
    unfolding r c rc using dates
    by (simp add: handleRescheduleRequest_def handleCancellationRequest_def Let_def tryReply_def)
qed

text \<open>
  C4 on the code.  Phone 111 has an appointment and asks to reschedule; the dates are
  listed and the dialogue is at the stage of choosing a date.  Then
  \<^verbatim>\<open>/clear-appointments\<close> empties the store: the entry of phone 111 is still there, and
  no appointment of phone 111 is.
\<close>

theorem clearAppointments_leaves_state:
  "find (\<lambda>a. phone a = ''111'')
     (appointmentData
        (fst (onMessage 0 (atLocal 0 19786 9 0) False
           \<lparr>appointmentData =
              [\<lparr>name = ''A'', phone = ''111'', appointmentTime = atLocal 0 19788 14 0,
                isFromUpload = True, isRescheduled = False, isExisting = False\<rparr>],
            userReschedulingState = Map.empty, seenAppointments = {''111''}\<rparr>
           \<lparr>contactNumber = ''111'', body = ''reschedule'', hasMedia = False\<rparr>)))
     \<noteq> None
   \<and> appointmentData
        (clearAppointments
           (fst (onMessage 0 (atLocal 0 19786 9 0) False
              \<lparr>appointmentData =
                 [\<lparr>name = ''A'', phone = ''111'', appointmentTime = atLocal 0 19788 14 0,
                   isFromUpload = True, isRescheduled = False, isExisting = False\<rparr>],
               userReschedulingState = Map.empty, seenAppointments = {''111''}\<rparr>
              \<lparr>contactNumber = ''111'', body = ''reschedule'', hasMedia = False\<rparr>)))
     = []
   \<and> map_option stage
        (userReschedulingState
           (clearAppointments
              (fst (onMessage 0 (atLocal 0 19786 9 0) False
                 \<lparr>appointmentData =
                    [\<lparr>name = ''A'', phone = ''111'', appointmentTime = atLocal 0 19788 14 0,
                      isFromUpload = True, isRescheduled = False, isExisting = False\<rparr>],
                  userReschedulingState = Map.empty, seenAppointments = {''111''}\<rparr>
                 \<lparr>contactNumber = ''111'', body = ''reschedule'', hasMedia = False\<rparr>)))
           ''111'')
     = Some selecting_date"
proof -
  let ?a = "\<lparr>name = ''A'', phone = ''111'', appointmentTime = atLocal 0 19788 14 0,
               isFromUpload = True, isRescheduled = False, isExisting = False\<rparr>"
  let ?st = "\<lparr>appointmentData = [?a], userReschedulingState = Map.empty,
               seenAppointments = {''111''}\<rparr>"
  have lc: "toLowerCase ''reschedule'' = ''reschedule''"
    by code_simp
  have inc: "\<not> str_includes ''reschedule'' ''cancel''" "\<not> str_includes ''reschedule'' ''cancellation''"
    "str_includes ''reschedule'' ''reschedule''"
    by code_simp+
  have dates: "getAvailableDates 0 (atLocal 0 19786 9 0) 7 \<noteq> []"
    by (simp add: getAvailableDates_eq dateOf_atLocal upto_1_7 hasBusinessHours_iff dayOfWeek_def)
  have r: "onMessage 0 (atLocal 0 19786 9 0) False ?st
             \<lparr>contactNumber = ''111'', body = ''reschedule'', hasMedia = False\<rparr>
           = handleRescheduleRequest 0 (atLocal 0 19786 9 0) False ?st ''111''"
    by (simp add: onMessage_def Let_def lc inc)
  show ?thesis
    unfolding r using dates
    by (simp add: handleRescheduleRequest_def clearAppointments_def Let_def tryReply_def)
qed

section \<open>The other operations keep a record for every dialogue\<close>

text \<open>
  A cancellation that removes an appointment deletes the dialogue entry of that phone,
  whether the farewell is delivered or not.
\<close>

lemma processCancellation_clears:
  "find (\<lambda>appt. phone appt = ph) (appointmentData st) \<noteq> None
     \<Longrightarrow> userReschedulingState (fst (processCancellation replyThrows st ph)) ph = None"
  by (auto simp: processCancellation_def tryReply_def deleteState_def Let_def split: option.splits)

lemma processCancellation_others:
  "q \<noteq> ph \<Longrightarrow>
     userReschedulingState (fst (processCancellation replyThrows st ph)) q = userReschedulingState st q
     \<and> (q \<in> phone ` set (appointmentData st)
          \<longrightarrow> q \<in> phone ` set (appointmentData (fst (processCancellation replyThrows st ph))))"
proof -
  assume q: "q \<noteq> ph"
  have r: "q \<in> phone ` set xs \<Longrightarrow> q \<in> phone ` set (removeFirst ph xs)" for xs
    using q by (induction xs) auto
  show ?thesis
    using q r
    by (auto simp: processCancellation_def tryReply_def deleteState_def Let_def
        split: option.splits)
qed

text \<open>The merge leaves a record for every phone that had one.\<close>

lemma mergeExisting_covered:
  "processedPhones acc \<subseteq> phone ` set (mergedAppointments acc)
     \<Longrightarrow> processedPhones (mergeExisting new ex acc)
           \<subseteq> phone ` set (mergedAppointments (mergeExisting new ex acc))"
proof (induction ex arbitrary: acc)
  case Nil
  then show ?case by simp
next
  case (Cons x ex)
  show ?case
    unfolding mergeExisting.simps
    by (rule Cons.IH) (use Cons.prems in \<open>auto split: option.splits\<close>)
qed

lemma mergeNew_covered:
  "processedPhones acc \<subseteq> phone ` set (mergedAppointments acc)
     \<Longrightarrow> processedPhones (mergeNew seen new acc)
           \<subseteq> phone ` set (mergedAppointments (mergeNew seen new acc))"
proof (induction new arbitrary: acc)
  case Nil
  then show ?case by simp
next
  case (Cons n new)
  show ?case
    unfolding mergeNew.simps
    by (rule Cons.IH) (use Cons.prems in \<open>auto simp: Let_def\<close>)
qed

lemma mergeNew_processed_mono:
  "x \<in> processedPhones acc \<Longrightarrow> x \<in> processedPhones (mergeNew seen new acc)"
  by (induction new arbitrary: acc) (auto simp: Let_def)

lemma mergeNew_processes_rows:
  "n \<in> set new \<Longrightarrow> phone n \<in> processedPhones (mergeNew seen new acc)"
proof (induction new arbitrary: acc)
  case Nil
  then show ?case by simp
next
  case (Cons x new)
  show ?case
  proof (cases "n = x")
    case True
    then show ?thesis
      by (auto simp: Let_def intro!: mergeNew_processed_mono)
  next
    case False
    with Cons.prems have "n \<in> set new" by simp
    from Cons.IH [OF this] show ?thesis by simp
  qed
qed

lemma mergeExisting_processes_unmatched:
  "e \<in> set ex \<Longrightarrow> find (\<lambda>n. phone n = phone e) new = None
     \<Longrightarrow> phone e \<in> processedPhones (mergeExisting new ex acc)"
proof (induction ex arbitrary: acc)
  case Nil
  then show ?case by simp
next
  case (Cons x ex)
  show ?case
  proof (cases "e = x")
    case True
    with Cons.prems show ?thesis
      by (auto intro!: mergeExisting_processed_mono)
  next
    case False
    with Cons.prems have "e \<in> set ex" by simp
    from Cons.IH [OF this Cons.prems(2)] show ?thesis by simp
  qed
qed

lemma upload_keeps_phones:
  assumes "a \<in> set (appointmentData st)"
  shows "phone a \<in> phone ` set (appointmentData (upload st new))"
proof (cases "new = []")
  case True
  with assms show ?thesis by (simp add: upload_def)
next
  case False
  let ?init = "\<lparr>mergedAppointments = [], processedPhones = {}, trulyNewAppointments = [],
           newlySeenPhones = seenAppointments st\<rparr>"
  let ?mid = "mergeExisting new (appointmentData st) ?init"
  let ?fin = "mergeNew (seenAppointments st) new ?mid"
  have up: "appointmentData (upload st new) = mergedAppointments ?fin"
    using False by (simp add: upload_def smartMerge_def Let_def)
  have "processedPhones ?mid \<subseteq> phone ` set (mergedAppointments ?mid)"
    by (rule mergeExisting_covered) simp
  then have cov: "processedPhones ?fin \<subseteq> phone ` set (mergedAppointments ?fin)"
    by (rule mergeNew_covered)
  have "phone a \<in> processedPhones ?fin"
  proof (cases "find (\<lambda>n. phone n = phone a) new")
    case None
    from mergeExisting_processes_unmatched [OF assms None]
    show ?thesis by (rule mergeNew_processed_mono)
  next
    case (Some n)
    then have "n \<in> set new" "phone n = phone a"
      using find_Some_in_set [of "\<lambda>n. phone n = phone a" new n] by auto
    with mergeNew_processes_rows [of n new] show ?thesis by metis
  qed
  with cov show ?thesis unfolding up by blast
qed

end
